theory Spec2Isabelle
  imports Complex_Main "HOL-Library.Log_Nat"
begin

section \<open>JavaScript values used by the GameBoost AI sources\<close>

text \<open>
  The sources are JavaScript and TypeScript. A string is modelled as a list of code
  units; the units covered are U+0000 to U+00FF (one \<open>char\<close> each), on which
  \<open>toLowerCase\<close> acts unit by unit. A number is an IEEE double: the finite ones are
  read as rationals (every comparison below is against an integer constant, so it is
  exact), and NaN and the two infinities are values of their own, because every
  comparison with NaN is false. A product of two doubles is the exact product rounded
  to the nearest double, \<open>to_double\<close> below.
\<close>

datatype jsnum = Num rat | NaN | PosInfinity | NegInfinity

fun js_lt :: "jsnum \<Rightarrow> jsnum \<Rightarrow> bool" where
  "js_lt (Num x) (Num y) = (x < y)"
| "js_lt NaN b = False"
| "js_lt a NaN = False"
| "js_lt NegInfinity NegInfinity = False"
| "js_lt NegInfinity b = True"
| "js_lt a NegInfinity = False"
| "js_lt PosInfinity b = False"
| "js_lt a PosInfinity = True"

definition js_gt :: "jsnum \<Rightarrow> jsnum \<Rightarrow> bool" where
  "js_gt a b = js_lt b a"

subsection \<open>Rounding to a double\<close>

text \<open>
  IEEE 754 binary64, round to nearest, ties to even, for magnitudes below \<open>2 ^ 1024\<close>.
  \<open>ulp x\<close> is the distance between neighbouring doubles around a positive \<open>x\<close>:
  \<open>2 ^ (e - 52)\<close> where \<open>2 ^ e \<le> x < 2 ^ (e + 1)\<close>, and \<open>2 ^ - 1074\<close> below the
  normal range, which starts at \<open>2 ^ - 1022\<close>. \<open>floorlog 2 n\<close> is the number of bits
  of \<open>n\<close>. A rational is a double when rounding leaves it unchanged.
\<close>

definition round_half_even :: "rat \<Rightarrow> int" where
  "round_half_even y =
     (let f = \<lfloor>y\<rfloor>; d = y - of_int f
      in if d < 1 / 2 then f
         else if 1 / 2 < d then f + 1
         else if even f then f else f + 1)"

definition ulp :: "rat \<Rightarrow> rat" where
  "ulp x =
     (if 1 \<le> x then 2 ^ (floorlog 2 (nat \<lfloor>x\<rfloor>) - 1) / 2 ^ 52
      else if 1 / 2 ^ 1022 \<le> x then 1 / 2 ^ (floorlog 2 (nat (\<lceil>1 / x\<rceil> - 1)) + 52)
      else 1 / 2 ^ 1074)"

definition to_double :: "rat \<Rightarrow> rat" where
  "to_double x =
     (if x = 0 then 0
      else if 0 < x then ulp x * of_int (round_half_even (x / ulp x))
      else - (ulp (- x) * of_int (round_half_even (- x / ulp (- x)))))"

definition is_double :: "rat \<Rightarrow> bool" where
  "is_double x = (to_double x = x)"

text \<open>
  \<open>JBuiltin p\<close> is the built-in object or function that every plain object inherits
  from \<open>Object.prototype\<close> under the property name \<open>p\<close>.
\<close>

datatype jsval =
    JUndefined
  | JNull
  | JBool bool
  | JNum jsnum
  | JStr string
  | JObj "(string \<times> jsval) list"
  | JBuiltin string

fun is_string :: "jsval \<Rightarrow> bool" where
  "is_string (JStr s) = True"
| "is_string v = False"

fun is_number :: "jsval \<Rightarrow> bool" where
  "is_number (JNum n) = True"
| "is_number v = False"

fun truthy :: "jsval \<Rightarrow> bool" where
  "truthy JUndefined = False"
| "truthy JNull = False"
| "truthy (JBool b) = b"
| "truthy (JNum n) = (n \<noteq> NaN \<and> n \<noteq> Num 0)"
| "truthy (JStr s) = (s \<noteq> [])"
| "truthy (JObj kvs) = True"
| "truthy (JBuiltin p) = True"

definition js_or :: "jsval \<Rightarrow> jsval \<Rightarrow> jsval" where
  "js_or a b = (if truthy a then a else b)"

subsection \<open>Property lookup on an object literal\<close>

text \<open>
  \<open>obj[k]\<close> on an object literal finds an own property first and then walks to
  \<open>Object.prototype\<close>, whose property names are listed here. A name found nowhere
  yields \<open>undefined\<close>.
\<close>

definition object_prototype_names :: "string list" where
  "object_prototype_names =
     [''constructor'', ''__defineGetter__'', ''__defineSetter__'', ''hasOwnProperty'',
      ''__lookupGetter__'', ''__lookupSetter__'', ''isPrototypeOf'',
      ''propertyIsEnumerable'', ''toString'', ''valueOf'', ''__proto__'',
      ''toLocaleString'']"

datatype 'a member = Own 'a | Inherited string | Undefined

definition js_get :: "(string \<times> 'a) list \<Rightarrow> string \<Rightarrow> 'a member" where
  "js_get obj k =
     (case map_of obj k of
        Some v \<Rightarrow> Own v
      | None \<Rightarrow> if k \<in> set object_prototype_names then Inherited k else Undefined)"

subsection \<open>Strings\<close>

definition lower_unit :: "char \<Rightarrow> char" where
  "lower_unit c =
     (let n = (of_char c :: nat)
      in if (65 \<le> n \<and> n \<le> 90) \<or> (192 \<le> n \<and> n \<le> 222 \<and> n \<noteq> 215)
         then char_of (n + 32) else c)"

definition toLowerCase :: "string \<Rightarrow> string" where
  "toLowerCase s = map lower_unit s"

fun startsWith :: "string \<Rightarrow> string \<Rightarrow> bool" where
  "startsWith s [] = True"
| "startsWith [] (d # ds) = False"
| "startsWith (c # cs) (d # ds) = (c = d \<and> startsWith cs ds)"

fun str_includes :: "string \<Rightarrow> string \<Rightarrow> bool" where
  "str_includes [] d = (d = [])"
| "str_includes (c # cs) d = (startsWith (c # cs) d \<or> str_includes cs d)"

text \<open>The white space class \<open>\s\<close> of a regular expression, on the units covered.\<close>

definition is_space :: "char \<Rightarrow> bool" where
  "is_space c = ((of_char c :: nat) \<in> {9, 10, 11, 12, 13, 32, 160})"

section \<open>Host process: \<open>public/electron/main.js\<close>\<close>

record ('s, 'n) PSResult =
  stdout :: 's
  stderr :: 's
  code :: 'n
  duration :: 'n

text \<open>
  What the spawned interpreter does is outside the program: the environment gives, for a
  command and a timeout, the text the child writes and the first of the three events
  (exit, error, timer) that reaches \<open>finish\<close>, with the elapsed milliseconds.
  \<open>number_text\<close> is the conversion of a value inside a template string.
\<close>

datatype child_end = Exited "int option" | Errored string | TimedOut

record child_run =
  out_text :: string
  err_text :: string
  ending :: child_end
  elapsed :: int

record host_env =
  isWindows :: bool
  child :: "string \<Rightarrow> jsval \<Rightarrow> child_run"
  number_text :: "jsval \<Rightarrow> string"

text \<open>A spawned process: the program and its argument list.\<close>

type_synonym spawn = "string \<times> string list"

definition default_param :: "jsval \<Rightarrow> jsval \<Rightarrow> jsval" where
  "default_param v d = (if v = JUndefined then d else v)"

definition runPowerShellCommand ::
  "host_env \<Rightarrow> string \<Rightarrow> jsval \<Rightarrow> (string, int) PSResult \<times> spawn list" where
  "runPowerShellCommand env command timeoutArg =
     (let timeoutMs = default_param timeoutArg (JNum (Num 30000))
      in if \<not> isWindows env
         then (\<lparr>stdout = ''Comando simulado (n'' @ [CHR 0xE3] @ ''o-Windows)'',
                stderr = '''', code = 0, duration = 100\<rparr>, [])
         else
           (let run = child env command timeoutMs;
                sp = [(''powershell'', [''-Command'', command])]
            in case ending run of
                 Exited c \<Rightarrow>
                   (\<lparr>stdout = out_text run, stderr = err_text run,
                     code = (case c of None \<Rightarrow> 0 | Some n \<Rightarrow> n),
                     duration = elapsed run\<rparr>, sp)
               | Errored msg \<Rightarrow>
                   (\<lparr>stdout = out_text run, stderr = err_text run @ msg,
                     code = 1, duration = elapsed run\<rparr>, sp)
               | TimedOut \<Rightarrow>
                   (\<lparr>stdout = out_text run,
                     stderr = err_text run @ ''Timeout ap'' @ [CHR 0xF3] @ ''s ''
                              @ number_text env timeoutMs @ ''ms'',
                     code = 124, duration = elapsed run\<rparr>, sp)))"

definition dangerousCommands :: "string list" where
  "dangerousCommands =
     [''format'', ''del '', ''rm '', ''rmdir'', ''shutdown'', ''restart'', ''reboot'',
      ''taskkill /f'', ''net user'', ''net localgroup'']"

definition msg_invalid_command :: string where
  "msg_invalid_command = ''Comando inv'' @ [CHR 0xE1] @ ''lido''"

definition msg_command_denied :: string where
  "msg_command_denied =
     ''Comando n'' @ [CHR 0xE3] @ ''o permitido por seguran'' @ [CHR 0xE7] @ ''a''"

definition host_error :: "string \<Rightarrow> (string, int) PSResult" where
  "host_error msg = \<lparr>stdout = '''', stderr = msg, code = 1, duration = 0\<rparr>"

text \<open>
  The handler of the channel \<open>run-powershell\<close>. Both \<open>throw\<close>s land in the
  handler's own \<open>catch\<close>, which builds the error result; the second component is the
  list of processes spawned while handling the call.
\<close>

definition run_powershell ::
  "host_env \<Rightarrow> jsval \<Rightarrow> jsval \<Rightarrow> (string, int) PSResult \<times> spawn list" where
  "run_powershell env command timeoutArg =
     (let timeout = default_param timeoutArg (JNum (Num 30000))
      in case command of
           JStr c \<Rightarrow>
             if length c > 1000 then (host_error msg_invalid_command, [])
             else if (\<exists>dangerous \<in> set dangerousCommands.
                        str_includes (toLowerCase c) dangerous)
             then (host_error msg_command_denied, [])
             else runPowerShellCommand env c timeout
         | _ \<Rightarrow> (host_error msg_invalid_command, []))"

definition dangerousPaths :: "string list" where
  "dangerousPaths =
     [''system32'', ''windows'', ''program files'', ''users'', ''documents and settings'']"

text \<open>
  The file system and \<open>path.normalize\<close> belong to the Node runtime: \<open>stat\<close> and
  \<open>readFile\<close> answer with an error message or with the size in bytes, respectively
  the text. \<open>path_type_error\<close> is the message of the error that \<open>path.normalize\<close>
  throws for an argument that is not a string.
\<close>

record fs_env =
  normalize :: "string \<Rightarrow> string"
  stat :: "string \<Rightarrow> string + nat"
  readFile :: "string \<Rightarrow> string + string"
  path_type_error :: string

datatype fs_op = Stat string | ReadFile string

record FileReadResult =
  success :: bool
  content :: "string option"
  error :: "string option"

definition read_failed :: "string \<Rightarrow> FileReadResult" where
  "read_failed msg = \<lparr>success = False, content = None, error = Some msg\<rparr>"

definition msg_path_denied :: string where
  "msg_path_denied = ''Acesso negado: caminho n'' @ [CHR 0xE3] @ ''o permitido''"

definition msg_file_too_big :: string where
  "msg_file_too_big = ''Arquivo muito grande (max 1MB)''"

text \<open>
  \<open>readSystemFile\<close>, with the list of file-system calls it made. Every \<open>throw\<close>
  and every failing call ends in the function's \<open>catch\<close>.
\<close>

definition readSystemFile :: "fs_env \<Rightarrow> jsval \<Rightarrow> FileReadResult \<times> fs_op list" where
  "readSystemFile env filePath =
     (case filePath of
        JStr p \<Rightarrow>
          (let normalizedPath = normalize env p;
               lowerPath = toLowerCase normalizedPath
           in if (\<exists>dangerous \<in> set dangerousPaths. str_includes lowerPath dangerous)
              then (read_failed msg_path_denied, [])
              else
                (case stat env normalizedPath of
                   Inl e \<Rightarrow> (read_failed e, [Stat normalizedPath])
                 | Inr size_bytes \<Rightarrow>
                     if size_bytes > 1024 * 1024
                     then (read_failed msg_file_too_big, [Stat normalizedPath])
                     else
                       (case readFile env normalizedPath of
                          Inl e \<Rightarrow>
                            (read_failed e, [Stat normalizedPath, ReadFile normalizedPath])
                        | Inr text \<Rightarrow>
                            (\<lparr>success = True, content = Some text, error = None\<rparr>,
                             [Stat normalizedPath, ReadFile normalizedPath]))))
      | _ \<Rightarrow> (read_failed (path_type_error env), []))"

section \<open>Preload bridge: \<open>public/electron/preload.js\<close>\<close>

definition msg_not_a_string :: string where
  "msg_not_a_string = ''Comando deve ser uma string''"

definition msg_bad_length :: string where
  "msg_bad_length = ''Comando deve ter entre 1 e 1000 caracteres''"

definition validateCommand :: "jsval \<Rightarrow> string + bool" where
  "validateCommand command =
     (case command of
        JStr c \<Rightarrow>
          if length c = 0 \<or> length c > 1000 then Inl msg_bad_length else Inr True
      | _ \<Rightarrow> Inl msg_not_a_string)"

text \<open>
  A call of \<open>ipcRenderer.invoke\<close> resolves with the handler's value or rejects with
  an error, of which only the message is read.
\<close>

datatype ipc_outcome = Resolved jsval | Rejected string

text \<open>
  Reading one of the four result fields. On \<open>undefined\<close> and \<open>null\<close> the read
  throws a TypeError; the four names are no property of a primitive or built-in value.
\<close>

fun read_field :: "jsval \<Rightarrow> string \<Rightarrow> string + jsval" where
  "read_field JUndefined k =
     Inl (''Cannot read properties of undefined (reading '' @ [CHR 0x27] @ k @ [CHR 0x27] @ '')'')"
| "read_field JNull k =
     Inl (''Cannot read properties of null (reading '' @ [CHR 0x27] @ k @ [CHR 0x27] @ '')'')"
| "read_field (JObj kvs) k =
     Inr (case js_get kvs k of
            Own v \<Rightarrow> v | Inherited p \<Rightarrow> JBuiltin p | Undefined \<Rightarrow> JUndefined)"
| "read_field v k = Inr JUndefined"

definition bridge_error :: "string \<Rightarrow> (jsval, jsval) PSResult" where
  "bridge_error msg =
     \<lparr>stdout = JStr '''', stderr = js_or (JStr msg) (JStr ''Erro desconhecido''),
      code = JNum (Num 1), duration = JNum (Num 0)\<rparr>"

text \<open>
  \<open>runPS\<close>, with the list of calls made on the channel \<open>run-powershell\<close>: the
  command and the timeout handed to the host.
\<close>

definition runPS ::
  "(jsval \<Rightarrow> jsval \<Rightarrow> ipc_outcome) \<Rightarrow> jsval \<Rightarrow> jsval
     \<Rightarrow> (jsval, jsval) PSResult \<times> (jsval \<times> jsval) list" where
  "runPS invoke command timeoutArg =
     (case validateCommand command of
        Inl msg \<Rightarrow> (bridge_error msg, [])
      | Inr valid \<Rightarrow>
          (let timeout0 = default_param timeoutArg (JNum (Num 30000));
               timeout =
                 (case timeout0 of
                    JNum n \<Rightarrow>
                      if js_lt n (Num 1000) \<or> js_gt n (Num 120000)
                      then JNum (Num 30000) else JNum n
                  | _ \<Rightarrow> JNum (Num 30000));
               sent = [(command, timeout)]
           in case invoke command timeout of
                Rejected msg \<Rightarrow> (bridge_error msg, sent)
              | Resolved result \<Rightarrow>
                  (case read_field result ''stdout'' of
                     Inl msg \<Rightarrow> (bridge_error msg, sent)
                   | Inr out \<Rightarrow>
                       (case read_field result ''stderr'' of
                          Inl msg \<Rightarrow> (bridge_error msg, sent)
                        | Inr err \<Rightarrow>
                            (case read_field result ''code'' of
                               Inl msg \<Rightarrow> (bridge_error msg, sent)
                             | Inr c \<Rightarrow>
                                 (case read_field result ''duration'' of
                                    Inl msg \<Rightarrow> (bridge_error msg, sent)
                                  | Inr d \<Rightarrow>
                                      (\<lparr>stdout = js_or out (JStr ''''),
                                        stderr = js_or err (JStr ''''),
                                        code = (if is_number c then c else JNum (Num 1)),
                                        duration = (if is_number d then d else JNum (Num 0))\<rparr>,
                                       sent)))))))"

text \<open>
  The host's side of the channel: the value the \<open>run-powershell\<close> handler of
  \<open>main.js\<close> returns, as the object that arrives in the renderer.
\<close>

definition reply_object :: "(string, int) PSResult \<Rightarrow> jsval" where
  "reply_object r =
     JObj [(''stdout'', JStr (stdout r)), (''stderr'', JStr (stderr r)),
           (''code'', JNum (Num (of_int (code r)))),
           (''duration'', JNum (Num (of_int (duration r))))]"

definition host_channel :: "host_env \<Rightarrow> jsval \<Rightarrow> jsval \<Rightarrow> ipc_outcome" where
  "host_channel env command timeout =
     Resolved (reply_object (fst (run_powershell env command timeout)))"

section \<open>Preset table: \<open>src/engine/presets.ts\<close>\<close>

text \<open>The optional field \<open>notes\<close> of the source is \<open>presetNotes\<close> here.\<close>

record PresetConfig =
  cpuPriority :: string
  ramCleanup :: string
  backgroundApps :: string
  fanSpeed :: int
  powerMode :: string
  gpuBoost :: string
  presetNotes :: "string option"

definition presets :: "(string \<times> PresetConfig) list" where
  "presets =
     [(''esports'',
         \<lparr>cpuPriority = ''realtime'', ramCleanup = ''aggressive'',
          backgroundApps = ''kill-aggressive'', fanSpeed = 90,
          powerMode = ''performance'', gpuBoost = ''max'', presetNotes = None\<rparr>),
      (''battleroyale'',
         \<lparr>cpuPriority = ''high'', ramCleanup = ''balanced'',
          backgroundApps = ''smart'', fanSpeed = 75,
          powerMode = ''performance'', gpuBoost = ''high'', presetNotes = None\<rparr>),
      (''aaa'',
         \<lparr>cpuPriority = ''normal'', ramCleanup = ''light'',
          backgroundApps = ''minimal'', fanSpeed = 65,
          powerMode = ''balanced'', gpuBoost = ''quality'', presetNotes = None\<rparr>),
      (''battlefield6'',
         \<lparr>cpuPriority = ''realtime-multicore'', ramCleanup = ''aggressive'',
          backgroundApps = ''kill-aggressive'', fanSpeed = 100,
          powerMode = ''performance'', gpuBoost = ''max-vram-buffer'', presetNotes = None\<rparr>),
      (''streamgame'',
         \<lparr>cpuPriority = ''split'', ramCleanup = ''balanced'',
          backgroundApps = ''smart'', fanSpeed = 80,
          powerMode = ''performance'', gpuBoost = ''balanced'', presetNotes = None\<rparr>),
      (''silent'',
         \<lparr>cpuPriority = ''low'', ramCleanup = ''minimal'',
          backgroundApps = ''none'', fanSpeed = 30,
          powerMode = ''eco'', gpuBoost = ''low'', presetNotes = None\<rparr>),
      (''arcriders'',
         \<lparr>cpuPriority = ''high'', ramCleanup = ''balanced'',
          backgroundApps = ''smart'', fanSpeed = 85,
          powerMode = ''performance'', gpuBoost = ''balanced'', presetNotes = None\<rparr>),
      (''warzone'',
         \<lparr>cpuPriority = ''realtime'', ramCleanup = ''aggressive'',
          backgroundApps = ''kill-aggressive'', fanSpeed = 95,
          powerMode = ''performance'', gpuBoost = ''max'', presetNotes = None\<rparr>)]"

text \<open>
  The literal \<open>map\<close> inside \<open>normalizeProfileName\<close>, entry by entry as written
  (two keys are written twice, with the same value).
\<close>

definition name_map :: "(string \<times> string) list" where
  "name_map =
     [(''esports'', ''esports''), (''esports'', ''esports''),
      (''battleroyale'', ''battleroyale''), (''battleroyale'', ''battleroyale''),
      (''aaa'', ''aaa''), (''aaagames'', ''aaa''),
      (''battlefield6'', ''battlefield6''), (''bf6'', ''battlefield6''),
      (''streamgame'', ''streamgame''), (''streamjogo'', ''streamgame''),
      (''stream+game'', ''streamgame''),
      (''silent'', ''silent''), (''silencioso'', ''silent''),
      (''arcriders'', ''arcriders''), (''arcraiders'', ''arcriders''),
      (''arider'', ''arcriders''), (''warzone'', ''warzone'')]"

text \<open>The value of \<open>obj[k]\<close> for a table of strings.\<close>

fun member_value :: "string member \<Rightarrow> jsval" where
  "member_value (Own v) = JStr v"
| "member_value (Inherited p) = JBuiltin p"
| "member_value Undefined = JUndefined"

definition normalizeProfileName :: "string \<Rightarrow> jsval" where
  "normalizeProfileName name =
     (let m = filter (\<lambda>c. \<not> (is_space c \<or> c = CHR ''+'' \<or> c = CHR ''-'' \<or> c = CHR ''_''))
                (toLowerCase name)
      in js_or (member_value (js_get name_map m)) JNull)"

definition presetDisplayNames :: "(string \<times> string) list" where
  "presetDisplayNames =
     [(''esports'', ''E-Sports''), (''battleroyale'', ''Battle Royale''),
      (''aaa'', ''AAA Games''), (''battlefield6'', ''Battlefield 6''),
      (''streamgame'', ''Stream + Game''), (''silent'', ''Silencioso''),
      (''arcriders'', ''Arc Raiders''), (''warzone'', ''Warzone'')]"

section \<open>Optimizer: \<open>src/engine/optimizer/windows.ts\<close>\<close>

record FanResult =
  ok :: bool
  percent :: jsnum

definition setFanSpeed :: "jsnum \<Rightarrow> FanResult" where
  "setFanSpeed percent0 =
     (let percent1 = (if js_lt percent0 (Num 0) then Num 0 else percent0);
          percent2 = (if js_gt percent1 (Num 100) then Num 100 else percent1)
      in \<lparr>ok = True, percent = percent2\<rparr>)"

section \<open>Turbo sequence: \<open>src/engine/turbo.ts\<close>\<close>

record TurboResult =
  steps :: nat
  errors :: nat
  tempGuard :: bool
  executionTime :: int
  profile :: jsval

text \<open>
  The field \<open>duration\<close> of the source's \<open>TelemetryBoost\<close> is \<open>boostDuration\<close> here,
  the name \<open>duration\<close> being taken by the result of a command.
\<close>

record TelemetryBoost =
  fpsBoost :: int
  ramReduction :: int
  tempReduction :: int
  boostDuration :: int

text \<open>
  The module's variables and the browser's local storage. Writing to and reading from
  the storage are taken to succeed.
\<close>

record turbo_state =
  storage :: "string \<rightharpoonup> string"
  activeTelemetry :: "TelemetryBoost option"
  telemetryStartTime :: int

text \<open>
  What one run reads from outside: the four readings of \<open>Date.now()\<close> in the order
  they are taken, and the two draws of \<open>Math.random()\<close>, each a double that is at
  least 0 and below 1.
\<close>

record readings =
  startClock :: int
  endClock :: int
  telemetryClock :: int
  saveClock :: int
  ramDraw :: rat
  tempDraw :: rat

text \<open>\<open>JSON.stringify\<close> and \<open>JSON.parse\<close> (\<open>None\<close>: a SyntaxError is thrown).\<close>

record json_runtime =
  stringify :: "jsval \<Rightarrow> string"
  parse :: "string \<Rightarrow> jsval option"

text \<open>The functions of the optimizer that the sequence calls.\<close>

datatype op_name =
    FreeRam | CloseBackgroundApps | SetProcessPriority | ApplyPowerPlan
  | ClearTempCaches | SetFanSpeed | ApplyGpuBoost

text \<open>
  \<open>isDesktop\<close>: the bridge is present in the window. \<open>fnThrows f args\<close>: the real
  function \<open>f\<close>, called with \<open>args\<close>, throws or rejects.
\<close>

record turbo_env =
  isDesktop :: bool
  fnThrows :: "op_name \<Rightarrow> jsval list \<Rightarrow> bool"

definition calculateFpsBoost :: "string \<Rightarrow> int" where
  "calculateFpsBoost profileKey =
     (if profileKey = ''esports'' \<or> profileKey = ''battleroyale'' then 5
      else if profileKey = ''aaa'' then 3
      else if profileKey = ''battlefield6'' then 6
      else if profileKey = ''streamgame'' then 4
      else if profileKey = ''silent'' then 0
      else if profileKey = ''arcriders'' then 4
      else if profileKey = ''warzone'' then 5
      else 4)"

text \<open>
  \<open>step\<close> without its label, which only reaches the log: the log is not modelled. The
  value the real function returns is dropped by the source; only a throw makes the step
  fail.
\<close>

definition step :: "turbo_env \<Rightarrow> op_name option \<Rightarrow> jsval list \<Rightarrow> bool" where
  "step env fnReal args =
     (case fnReal of
        Some f \<Rightarrow> if isDesktop env then (if fnThrows env f args then False else True) else True
      | None \<Rightarrow> True)"

definition activateTelemetryBoost ::
  "readings \<Rightarrow> string \<Rightarrow> bool \<Rightarrow> turbo_state \<Rightarrow> turbo_state" where
  "activateTelemetryBoost rd profileKey guard st =
     st\<lparr>activeTelemetry :=
          Some \<lparr>fpsBoost = calculateFpsBoost profileKey,
                ramReduction = \<lfloor>to_double (ramDraw rd * 5)\<rfloor> + 8,
                tempReduction =
                  (if guard then \<lfloor>to_double (tempDraw rd * 3)\<rfloor> + 2 else 0),
                boostDuration = 60000\<rparr>,
        telemetryStartTime := telemetryClock rd\<rparr>"

text \<open>A field of the looked-up preset: \<open>undefined\<close> on an inherited built-in.\<close>

fun preset_field :: "(PresetConfig \<Rightarrow> jsval) \<Rightarrow> PresetConfig member \<Rightarrow> jsval" where
  "preset_field f (Own cfg) = f cfg"
| "preset_field f m = JUndefined"

fun member_truthy :: "PresetConfig member \<Rightarrow> bool" where
  "member_truthy (Own cfg) = True"
| "member_truthy (Inherited p) = True"
| "member_truthy Undefined = False"

definition hasFan :: bool where
  "hasFan = True"

definition hasGpu :: bool where
  "hasGpu = True"

type_synonym operation = "op_name option \<times> jsval list"

definition operations :: "PresetConfig member \<Rightarrow> operation list" where
  "operations preset =
     (let prio = preset_field (\<lambda>c. JStr (cpuPriority c)) preset
      in [(Some FreeRam, []),
          (Some CloseBackgroundApps, [preset_field (\<lambda>c. JStr (backgroundApps c)) preset]),
          (Some SetProcessPriority,
             [JObj [(''name'', JStr ''GameBoostAI''),
                    (''level'',
                       JStr (if prio = JStr ''realtime'' \<or> prio = JStr ''realtime-multicore''
                             then ''RealTime''
                             else if prio = JStr ''high'' then ''High'' else ''Normal''))]]),
          (Some ApplyPowerPlan, [JStr ''performance'']),
          (Some ClearTempCaches, []),
          (if hasFan then Some SetFanSpeed else None,
             [preset_field (\<lambda>c. JNum (Num (of_int (fanSpeed c)))) preset]),
          (if hasGpu then Some ApplyGpuBoost else None,
             [preset_field (\<lambda>c. JStr (gpuBoost c)) preset])])"

datatype op_outcome = Returned bool | Threw

definition run_operation :: "turbo_env \<Rightarrow> operation \<Rightarrow> op_outcome" where
  "run_operation env op = Returned (step env (fst op) (snd op))"

text \<open>
  The \<open>for\<close> loop over the operations: the counters \<open>steps\<close> and \<open>errors\<close>, and
  the operations run so far.
\<close>

fun run_loop ::
  "turbo_env \<Rightarrow> operation list \<Rightarrow> nat \<times> nat \<times> operation list
     \<Rightarrow> nat \<times> nat \<times> operation list" where
  "run_loop env [] acc = acc"
| "run_loop env (op # ops) (n, e, executed) =
     (case run_operation env op of
        Returned ok_flag \<Rightarrow>
          run_loop env ops (n + 1, (if \<not> ok_flag then e + 1 else e), executed @ [op])
      | Threw \<Rightarrow> run_loop env ops (n + 1, e + 1, executed @ [op]))"

definition profile_not_found :: "string \<Rightarrow> string" where
  "profile_not_found profileIdentifier =
     ''Perfil '' @ [CHR 0x27] @ profileIdentifier @ [CHR 0x27]
       @ '' n'' @ [CHR 0xE3] @ ''o encontrado''"

text \<open>
  The key that \<open>runTurbo\<close> computes from its argument, lower-cased and with every
  white space and hyphen removed (the source's \<open>toLowerCase\<close> followed by
  \<open>replace\<close> with an empty replacement).
\<close>

definition turbo_key :: "string \<Rightarrow> string" where
  "turbo_key profileIdentifier =
     filter (\<lambda>c. \<not> (is_space c \<or> c = CHR ''-'')) (toLowerCase profileIdentifier)"

text \<open>
  \<open>runTurbo\<close>: the thrown error or the result, the state afterwards, and the operations
  run, in order.
\<close>

definition runTurbo ::
  "json_runtime \<Rightarrow> turbo_env \<Rightarrow> readings \<Rightarrow> string \<Rightarrow> turbo_state
     \<Rightarrow> (string + TurboResult) \<times> turbo_state \<times> operation list" where
  "runTurbo rt env rd profileIdentifier st =
     (let profileKey = turbo_key profileIdentifier;
          preset = js_get presets profileKey
      in if \<not> member_truthy preset
         then (Inl (profile_not_found profileIdentifier), st, [])
         else
           (let displayName = js_or (member_value (js_get presetDisplayNames profileKey))
                                (JStr profileIdentifier);
                isBF6 = (profileKey = ''battlefield6'');
                guard = (if isBF6 then True else False);
                (n, e, executed) = run_loop env (operations preset) (0, 0, []);
                execTime = endClock rd - startClock rd;
                st1 = activateTelemetryBoost rd profileKey guard st;
                turboData = JObj [(''lastTurboAt'', JNum (Num (of_int (saveClock rd)))),
                                  (''lastTurboProfile'', JStr profileKey)];
                st2 = st1\<lparr>storage := (storage st1)(''gb.turbo'' \<mapsto> stringify rt turboData)\<rparr>
            in (Inr \<lparr>steps = n, errors = e, tempGuard = guard,
                      executionTime = execTime, profile = displayName\<rparr>,
                st2, executed)))"

definition getLastTurboData :: "json_runtime \<Rightarrow> turbo_state \<Rightarrow> jsval" where
  "getLastTurboData rt st =
     (case storage st ''gb.turbo'' of
        None \<Rightarrow> JNull
      | Some data \<Rightarrow>
          if data \<noteq> []
          then (case parse rt data of None \<Rightarrow> JNull | Some v \<Rightarrow> v)
          else JNull)"

section \<open>Earlier Turbo engine: \<open>temp-project-restore/src/engine/turbo.ts\<close>\<close>

text \<open>
  The restored copy of the engine simulates every operation. Each function below takes
  the draws of \<open>Math.random()\<close> it consumes for its outcome; the delays are not
  modelled. A draw is a double in the interval from 0 to 1; it is below the double
  nearest to 0.1 exactly when it is below the rational 1/10.
\<close>

definition shouldFail :: "rat \<Rightarrow> bool" where
  "shouldFail r = (r < 1 / 10)"

definition turboOperations_freeRam :: "rat \<Rightarrow> bool" where
  "turboOperations_freeRam r = (if shouldFail r then False else True)"

definition turboOperations_closeBackgroundApps :: "string \<Rightarrow> rat \<Rightarrow> bool" where
  "turboOperations_closeBackgroundApps behavior r = (if shouldFail r then False else True)"

definition turboOperations_setCpuPriority :: "string \<Rightarrow> rat \<Rightarrow> bool" where
  "turboOperations_setCpuPriority priority r = (if shouldFail r then False else True)"

definition turboOperations_applyPowerPlan :: "string \<Rightarrow> rat \<Rightarrow> bool" where
  "turboOperations_applyPowerPlan mode r = (if shouldFail r then False else True)"

definition turboOperations_setFanSpeed :: "int \<Rightarrow> bool \<Rightarrow> rat \<Rightarrow> rat \<Rightarrow> bool" where
  "turboOperations_setFanSpeed speed guard tempRandom r =
     (let currentTemp = \<lfloor>tempRandom * 40\<rfloor> + 60
      in if guard \<and> currentTemp > 80 then True
         else if shouldFail r then False else True)"

definition turboOperations_applyGpuBoost :: "string \<Rightarrow> rat \<Rightarrow> bool" where
  "turboOperations_applyGpuBoost boost r = (if shouldFail r then False else True)"

definition turboOperations_cleanTempCaches :: "rat \<Rightarrow> bool" where
  "turboOperations_cleanTempCaches r = (if shouldFail r then False else True)"

definition turboOperations_networkBoostBasic :: "rat \<Rightarrow> bool" where
  "turboOperations_networkBoostBasic r = (if shouldFail r then False else True)"

section \<open>Concrete environments\<close>

text \<open>Small environments on which the theorems below are instantiated.\<close>

definition demo_host :: host_env where
  "demo_host =
     \<lparr>isWindows = True,
      child = (\<lambda>c t. \<lparr>out_text = ''done'', err_text = '''',
                      ending = Exited (Some 0), elapsed = 12\<rparr>),
      number_text = (\<lambda>v. ''30000'')\<rparr>"

definition demo_fs :: fs_env where
  "demo_fs =
     \<lparr>normalize = (\<lambda>p. p),
      stat = (\<lambda>p. if p = ''D:/big.bin'' then Inr 2000000
                   else if p = ''D:/notes.txt'' then Inr 5
                   else Inl ''ENOENT: no such file or directory''),
      readFile = (\<lambda>p. if p = ''D:/notes.txt'' then Inr ''hello''
                       else Inl ''ENOENT: no such file or directory''),
      path_type_error = ''The path argument must be of type string''\<rparr>"

definition demo_data :: jsval where
  "demo_data = JObj [(''lastTurboAt'', JNum (Num 1700000000400)),
                     (''lastTurboProfile'', JStr ''esports'')]"

definition demo_json :: json_runtime where
  "demo_json =
     \<lparr>stringify = (\<lambda>v. if v = demo_data then ''turbo-record'' else ''null''),
      parse = (\<lambda>s. if s = ''turbo-record'' then Some demo_data
                    else if s = ''null'' then Some JNull else None)\<rparr>"

definition demo_preview :: turbo_env where
  "demo_preview = \<lparr>isDesktop = False, fnThrows = (\<lambda>f args. False)\<rparr>"

definition demo_desktop :: turbo_env where
  "demo_desktop = \<lparr>isDesktop = True, fnThrows = (\<lambda>f args. f = ApplyPowerPlan)\<rparr>"

definition demo_readings :: readings where
  "demo_readings =
     \<lparr>startClock = 1700000000000, endClock = 1700000000300,
      telemetryClock = 1700000000350, saveClock = 1700000000400,
      ramDraw = 5404319552844595 / 2 ^ 53, tempDraw = 6004799503160661 / 2 ^ 53\<rparr>"

text \<open>
  The two draws of \<open>demo_readings\<close> are the doubles nearest to 0.6 and to 2/3.
\<close>

definition demo_state :: turbo_state where
  "demo_state = \<lparr>storage = Map.empty, activeTelemetry = None, telemetryStartTime = 0\<rparr>"

section \<open>Properties of the host process\<close>

lemma startsWith_iff: "startsWith s d \<longleftrightarrow> (\<exists>post. s = d @ post)"
  by (induction s d rule: startsWith.induct) auto

lemma includes_iff: "str_includes s d \<longleftrightarrow> (\<exists>pre post. s = pre @ d @ post)"
proof (induction s)
  case Nil
  then show ?case by auto
next
  case (Cons c cs)
  show ?case
  proof
    assume "str_includes (c # cs) d"
    then consider "startsWith (c # cs) d" | "str_includes cs d" by auto
    then show "\<exists>pre post. c # cs = pre @ d @ post"
    proof cases
      case 1
      then obtain post where "c # cs = d @ post" using startsWith_iff by blast
      then have "c # cs = [] @ d @ post" by simp
      then show ?thesis by blast
    next
      case 2
      then obtain pre post where "cs = pre @ d @ post" using Cons.IH by blast
      then have "c # cs = (c # pre) @ d @ post" by simp
      then show ?thesis by blast
    qed
  next
    assume "\<exists>pre post. c # cs = pre @ d @ post"
    then obtain pre post where eq: "c # cs = pre @ d @ post" by blast
    show "str_includes (c # cs) d"
    proof (cases pre)
      case Nil
      with eq have "startsWith (c # cs) d" using startsWith_iff by auto
      then show ?thesis by simp
    next
      case (Cons p ps)
      with eq have "cs = ps @ d @ post" by simp
      then have "str_includes cs d" using Cons.IH by blast
      then show ?thesis by simp
    qed
  qed
qed

lemma toLowerCase_append: "toLowerCase (a @ b) = toLowerCase a @ toLowerCase b"
  by (simp add: toLowerCase_def)

lemma includes_lower_part:
  "str_includes (toLowerCase (pre @ part @ post)) (toLowerCase part)"
  unfolding includes_iff toLowerCase_append by blast

lemma dangerous_nonempty_messages:
  "msg_invalid_command \<noteq> [] \<and> msg_command_denied \<noteq> []"
  by (simp add: msg_invalid_command_def msg_command_denied_def)

text \<open>
  Claim C1. A command string that contains, in any letter case, one of the ten
  blacklisted substrings (some part of the command lower-cases to it) is answered by
  the \<open>run-powershell\<close> handler with empty stdout, a non-empty stderr message, code 1
  and duration 0, and no process is spawned for it.
\<close>

theorem run_powershell_blacklist:
  assumes "command = pre @ part @ post"
    and "toLowerCase part = dangerous"
    and "dangerous \<in> set dangerousCommands"
  shows "\<exists>msg. msg \<noteq> [] \<and>
           run_powershell env (JStr command) timeout =
             (\<lparr>stdout = '''', stderr = msg, code = 1, duration = 0\<rparr>, [])"
proof -
  have inc: "str_includes (toLowerCase command) dangerous"
    using assms(1,2) includes_lower_part [of pre part post] by simp
  show ?thesis
  proof (cases "length command > 1000")
    case True
    then have "run_powershell env (JStr command) timeout =
                 (host_error msg_invalid_command, [])"
      by (simp add: run_powershell_def)
    then show ?thesis
      using dangerous_nonempty_messages by (auto simp: host_error_def)
  next
    case False
    then have "run_powershell env (JStr command) timeout =
                 (host_error msg_command_denied, [])"
      using inc assms(3) by (auto simp: run_powershell_def)
    then show ?thesis
      using dangerous_nonempty_messages by (auto simp: host_error_def)
  qed
qed

theorem run_powershell_blacklist_witness:
  "toLowerCase ''Format'' = ''format'' \<and> ''format'' \<in> set dangerousCommands \<and>
   (\<exists>msg. msg \<noteq> [] \<and>
      run_powershell demo_host (JStr ''Format C:'') JUndefined =
        (\<lparr>stdout = [], stderr = msg, code = 1, duration = 0\<rparr>, []))"
proof -
  have a: "''Format C:'' = [] @ ''Format'' @ '' C:''" by simp
  have b: "toLowerCase ''Format'' = ''format''" by code_simp
  have c: "''format'' \<in> set dangerousCommands" by (simp add: dangerousCommands_def)
  show ?thesis using run_powershell_blacklist [OF a b c] b c by blast
qed

section \<open>Properties of the preload bridge\<close>

lemma bridge_error_nonempty:
  "msg \<noteq> [] \<Longrightarrow>
   bridge_error msg =
     \<lparr>stdout = JStr [], stderr = JStr msg, code = JNum (Num 1), duration = JNum (Num 0)\<rparr>"
  by (simp add: bridge_error_def js_or_def)

lemma bridge_error_typed:
  "is_string (stdout (bridge_error msg)) \<and> is_string (stderr (bridge_error msg)) \<and>
   is_number (code (bridge_error msg)) \<and> is_number (duration (bridge_error msg))"
  by (simp add: bridge_error_def js_or_def)

lemma runPS_invalid:
  assumes "\<not> is_string command \<or>
           (\<exists>s. command = JStr s \<and> (length s = 0 \<or> 1000 < length s))"
  shows "\<exists>msg. msg \<noteq> [] \<and>
           runPS invoke command timeout =
             (\<lparr>stdout = JStr [], stderr = JStr msg, code = JNum (Num 1),
               duration = JNum (Num 0)\<rparr>, [])"
proof (cases command)
  case (JStr s)
  with assms have "length s = 0 \<or> 1000 < length s" by auto
  then have "validateCommand command = Inl msg_bad_length"
    using JStr by (auto simp: validateCommand_def)
  then have "runPS invoke command timeout = (bridge_error msg_bad_length, [])"
    by (simp add: runPS_def)
  moreover have "msg_bad_length \<noteq> []" by (simp add: msg_bad_length_def)
  ultimately show ?thesis using bridge_error_nonempty by metis
qed (auto simp: runPS_def validateCommand_def msg_not_a_string_def bridge_error_def js_or_def)

lemma reply_fields:
  "read_field (reply_object r) ''stdout'' = Inr (JStr (stdout r))"
  "read_field (reply_object r) ''stderr'' = Inr (JStr (stderr r))"
  "read_field (reply_object r) ''code'' = Inr (JNum (Num (of_int (code r))))"
  "read_field (reply_object r) ''duration'' = Inr (JNum (Num (of_int (duration r))))"
  by (simp_all add: reply_object_def js_get_def)

text \<open>The timeout that \<open>runPS\<close> hands to the host, as the source computes it.\<close>

lemma runPS_sent:
  assumes "validateCommand command = Inr True"
  shows "snd (runPS invoke command timeout) =
           [(command,
             (case default_param timeout (JNum (Num 30000)) of
                JNum n \<Rightarrow>
                  if js_lt n (Num 1000) \<or> js_gt n (Num 120000)
                  then JNum (Num 30000) else JNum n
              | _ \<Rightarrow> JNum (Num 30000)))]"
  using assms by (simp add: runPS_def Let_def split: ipc_outcome.splits sum.splits)

lemma runPS_valid_typed:
  assumes "0 < length s" and "length s \<le> 1000"
    and "\<forall>c t. invoke c t = host_channel env c t \<or> (\<exists>m. invoke c t = Rejected m)"
  shows "is_string (stdout (fst (runPS invoke (JStr s) timeout))) \<and>
         is_string (stderr (fst (runPS invoke (JStr s) timeout))) \<and>
         is_number (code (fst (runPS invoke (JStr s) timeout))) \<and>
         is_number (duration (fst (runPS invoke (JStr s) timeout)))"
proof -
  have v: "validateCommand (JStr s) = Inr True"
    using assms(1,2) by (simp add: validateCommand_def)
  define t where
    "t = (case default_param timeout (JNum (Num 30000)) of
            JNum n \<Rightarrow>
              if js_lt n (Num 1000) \<or> js_gt n (Num 120000)
              then JNum (Num 30000) else JNum n
          | _ \<Rightarrow> JNum (Num 30000))"
  from assms(3) consider
      "invoke (JStr s) t = host_channel env (JStr s) t"
    | m where "invoke (JStr s) t = Rejected m"
    by blast
  then show ?thesis
  proof cases
    case 1
    then show ?thesis
      using v
      by (simp add: runPS_def t_def [symmetric] Let_def host_channel_def reply_fields
          js_or_def)
  next
    case 2
    then show ?thesis
      using v bridge_error_typed by (simp add: runPS_def t_def [symmetric] Let_def)
  qed
qed

text \<open>
  The two numeric fields are numbers on every channel; the two text fields are as typed
  as the reply is, \<open>||\<close> replacing only a reply field that is not truthy.
\<close>

lemma runPS_numeric_fields:
  "is_number (code (fst (runPS invoke command timeout))) \<and>
   is_number (duration (fst (runPS invoke command timeout)))"
  by (simp add: runPS_def Let_def bridge_error_def split: sum.splits ipc_outcome.splits)

lemma runPS_reply_not_text:
  "stdout (fst (runPS (\<lambda>c t. Resolved (JObj [(''stdout'', JNum (Num 5))]))
                 (JStr ''Get-Date'') JUndefined)) = JNum (Num 5)"
  by (simp add: runPS_def validateCommand_def Let_def js_get_def js_or_def
      object_prototype_names_def)

text \<open>
  Claim C2. An argument that is not a string, or a string of length 0 or above 1000,
  makes \<open>runPS\<close> resolve to empty stdout, an error message in stderr, code 1 and
  duration 0, with no call on the IPC channel. For a valid command, on a channel that is
  served by the \<open>run-powershell\<close> handler of \<open>main.js\<close> (or rejects the call), the
  result has a string stdout, a string stderr, a numeric code and a numeric duration.
\<close>

theorem runPS_result_shape:
  "((\<not> is_string command \<or>
       (\<exists>s. command = JStr s \<and> (length s = 0 \<or> 1000 < length s))) \<longrightarrow>
      (\<exists>msg. msg \<noteq> [] \<and>
         runPS invoke command timeout =
           (\<lparr>stdout = JStr [], stderr = JStr msg, code = JNum (Num 1),
             duration = JNum (Num 0)\<rparr>, []))) \<and>
   (((\<exists>s. command = JStr s \<and> 0 < length s \<and> length s \<le> 1000) \<and>
       (\<forall>c t. invoke c t = host_channel env c t \<or> (\<exists>m. invoke c t = Rejected m))) \<longrightarrow>
      is_string (stdout (fst (runPS invoke command timeout))) \<and>
      is_string (stderr (fst (runPS invoke command timeout))) \<and>
      is_number (code (fst (runPS invoke command timeout))) \<and>
      is_number (duration (fst (runPS invoke command timeout))))"
  using runPS_invalid [of command invoke timeout] runPS_valid_typed [of _ invoke env timeout]
  by blast

theorem runPS_result_shape_witness:
  "(\<exists>msg. msg \<noteq> [] \<and>
      runPS (host_channel demo_host) (JNum (Num 7)) JUndefined =
        (\<lparr>stdout = JStr [], stderr = JStr msg, code = JNum (Num 1),
          duration = JNum (Num 0)\<rparr>, [])) \<and>
   is_string (stdout (fst (runPS (host_channel demo_host) (JStr ''Get-Date'') JUndefined))) \<and>
   is_string (stderr (fst (runPS (host_channel demo_host) (JStr ''Get-Date'') JUndefined))) \<and>
   is_number (code (fst (runPS (host_channel demo_host) (JStr ''Get-Date'') JUndefined))) \<and>
   is_number (duration (fst (runPS (host_channel demo_host) (JStr ''Get-Date'') JUndefined)))"
proof -
  have a: "\<not> is_string (JNum (Num 7))" by simp
  have b: "\<exists>s. JStr ''Get-Date'' = JStr s \<and> 0 < length s \<and> length s \<le> 1000" by simp
  have c: "\<forall>c t. host_channel demo_host c t = host_channel demo_host c t \<or>
                 (\<exists>m. host_channel demo_host c t = Rejected m)" by simp
  show ?thesis
    using runPS_result_shape [of "JNum (Num 7)" "host_channel demo_host" JUndefined demo_host]
      runPS_result_shape [of "JStr ''Get-Date''" "host_channel demo_host" JUndefined demo_host]
      a b c
    by blast
qed

lemma runPS_timeout_in_range:
  assumes "validateCommand command = Inr True" and "timeout \<noteq> JNum NaN"
  shows "\<exists>x. snd (runPS invoke command timeout) = [(command, JNum (Num x))] \<and>
             1000 \<le> x \<and> x \<le> 120000 \<and>
             (x = 30000 \<or> timeout = JNum (Num x))"
proof (cases timeout)
  case (JNum n)
  then show ?thesis
    using assms by (cases n) (auto simp: runPS_sent default_param_def js_gt_def)
qed (simp_all add: runPS_sent [OF assms(1)] default_param_def)

text \<open>
  Claim C10. The claim is that the timeout sent to the host always lies between 1000 and
  120000. The guard of \<open>runPS\<close> compares with \<open><\<close> and \<open>>\<close> only, and both are
  false on NaN, which is a number: a NaN timeout is sent to the host as it is.
\<close>

theorem runPS_timeout_nan:
  "snd (runPS (host_channel demo_host) (JStr ''Get-Date'') (JNum NaN)) =
     [(JStr ''Get-Date'', JNum NaN)]"
  by (simp add: runPS_sent validateCommand_def default_param_def js_gt_def)

section \<open>Properties of the file reader\<close>

lemma readSystemFile_denied:
  assumes "normalize env p = pre @ part @ post"
    and "toLowerCase part = dangerous"
    and "dangerous \<in> set dangerousPaths"
  shows "readSystemFile env (JStr p) =
           (\<lparr>success = False, content = None, error = Some msg_path_denied\<rparr>, [])"
proof -
  have "str_includes (toLowerCase (normalize env p)) dangerous"
    using assms(1,2) includes_lower_part [of pre part post] by simp
  then show ?thesis
    using assms(3) by (auto simp: readSystemFile_def read_failed_def Let_def)
qed

lemma readSystemFile_too_big:
  assumes "stat env (normalize env p) = Inr n" and "1024 * 1024 < n"
  shows "success (fst (readSystemFile env (JStr p))) = False \<and>
         ReadFile (normalize env p) \<notin> set (snd (readSystemFile env (JStr p)))"
  using assms by (simp add: readSystemFile_def read_failed_def Let_def)

lemma readSystemFile_content:
  "(content (fst (readSystemFile env filePath)) \<noteq> None) =
     success (fst (readSystemFile env filePath))"
  by (simp add: readSystemFile_def read_failed_def Let_def split: jsval.splits sum.splits)

text \<open>
  Claim C7. A path whose normalised form contains, in any letter case, one of the five
  dangerous segments is refused with \<open>success = false\<close> and an error message, and no
  file-system call is made for it. A file whose size is above 1 MB (1024 * 1024 bytes)
  gives \<open>success = false\<close> and is never read. In every case \<open>content\<close> is present
  exactly when \<open>success\<close> is true.
\<close>

theorem readSystemFile_guarded:
  "((\<exists>pre part post. normalize env p = pre @ part @ post \<and>
        toLowerCase part \<in> set dangerousPaths) \<longrightarrow>
      (\<exists>msg. msg \<noteq> [] \<and>
         readSystemFile env (JStr p) =
           (\<lparr>success = False, content = None, error = Some msg\<rparr>, []))) \<and>
   ((\<exists>n. stat env (normalize env p) = Inr n \<and> 1024 * 1024 < n) \<longrightarrow>
      success (fst (readSystemFile env (JStr p))) = False \<and>
      ReadFile (normalize env p) \<notin> set (snd (readSystemFile env (JStr p)))) \<and>
   ((content (fst (readSystemFile env filePath)) \<noteq> None) =
      success (fst (readSystemFile env filePath)))"
proof -
  have "msg_path_denied \<noteq> []" by (simp add: msg_path_denied_def)
  then show ?thesis
    using readSystemFile_denied [of env p] readSystemFile_too_big [of env p]
      readSystemFile_content [of env filePath]
    by blast
qed

theorem readSystemFile_guarded_witness:
  "(\<exists>msg. msg \<noteq> [] \<and>
      readSystemFile demo_fs (JStr ''C:/Windows/win.ini'') =
        (\<lparr>success = False, content = None, error = Some msg\<rparr>, [])) \<and>
   success (fst (readSystemFile demo_fs (JStr ''D:/big.bin''))) = False \<and>
   ReadFile ''D:/big.bin'' \<notin> set (snd (readSystemFile demo_fs (JStr ''D:/big.bin''))) \<and>
   content (fst (readSystemFile demo_fs (JStr ''D:/notes.txt''))) = Some ''hello'' \<and>
   success (fst (readSystemFile demo_fs (JStr ''D:/notes.txt''))) = True"
proof -
  have low: "toLowerCase ''Windows'' = ''windows''" by code_simp
  have "normalize demo_fs ''C:/Windows/win.ini'' = ''C:/'' @ ''Windows'' @ ''/win.ini''"
    by (simp add: demo_fs_def)
  moreover have "toLowerCase ''Windows'' \<in> set dangerousPaths"
    by (simp add: low dangerousPaths_def)
  ultimately have a:
    "\<exists>pre part post. normalize demo_fs ''C:/Windows/win.ini'' = pre @ part @ post \<and>
        toLowerCase part \<in> set dangerousPaths"
    by blast
  have b: "\<exists>n. stat demo_fs (normalize demo_fs ''D:/big.bin'') = Inr n \<and> 1024 * 1024 < n"
    by (simp add: demo_fs_def)
  have c: "normalize demo_fs ''D:/big.bin'' = ''D:/big.bin''"
    by (simp add: demo_fs_def)
  have safe:
    "\<not> (\<exists>dangerous \<in> set dangerousPaths.
           str_includes (toLowerCase ''D:/notes.txt'') dangerous)"
    by code_simp
  have d: "content (fst (readSystemFile demo_fs (JStr ''D:/notes.txt''))) = Some ''hello''"
    using safe by (simp add: readSystemFile_def demo_fs_def Let_def)
  note dangerous = readSystemFile_guarded [of demo_fs "''C:/Windows/win.ini''" "JStr ''D:/notes.txt''"]
  note big = readSystemFile_guarded [of demo_fs "''D:/big.bin''" "JStr ''D:/notes.txt''"]
  from dangerous a have p1:
    "\<exists>msg. msg \<noteq> [] \<and>
       readSystemFile demo_fs (JStr ''C:/Windows/win.ini'') =
         (\<lparr>success = False, content = None, error = Some msg\<rparr>, [])"
    by blast
  from big b have
    "success (fst (readSystemFile demo_fs (JStr ''D:/big.bin''))) = False \<and>
     ReadFile (normalize demo_fs ''D:/big.bin'') \<notin>
       set (snd (readSystemFile demo_fs (JStr ''D:/big.bin'')))"
    by blast
  then have p2:
    "success (fst (readSystemFile demo_fs (JStr ''D:/big.bin''))) = False \<and>
     ReadFile ''D:/big.bin'' \<notin> set (snd (readSystemFile demo_fs (JStr ''D:/big.bin'')))"
    unfolding c .
  from dangerous have
    "(content (fst (readSystemFile demo_fs (JStr ''D:/notes.txt''))) \<noteq> None) =
       success (fst (readSystemFile demo_fs (JStr ''D:/notes.txt'')))"
    by blast
  then have p3: "success (fst (readSystemFile demo_fs (JStr ''D:/notes.txt''))) = True"
    unfolding d by simp
  show ?thesis using p1 p2 p3 d by blast
qed

section \<open>Properties of the preset table and the fan speed\<close>

lemma presets_fanSpeed: "\<forall>(k, cfg) \<in> set presets. 0 \<le> fanSpeed cfg \<and> fanSpeed cfg \<le> 100"
  by (simp add: presets_def)

lemma setFanSpeed_clamps:
  "setFanSpeed (Num (of_int n)) = \<lparr>ok = True, percent = Num (of_int (max 0 (min 100 n)))\<rparr>"
  by (auto simp: setFanSpeed_def js_gt_def Let_def max_def min_def)

text \<open>
  Claim C8. Every entry of the presets table has a \<open>fanSpeed\<close> between 0 and 100, and
  for every integer input \<open>setFanSpeed\<close> returns \<open>ok = true\<close> with the input clamped
  into the interval from 0 to 100.
\<close>

theorem fanSpeed_bounded:
  "(\<forall>(k, cfg) \<in> set presets. 0 \<le> fanSpeed cfg \<and> fanSpeed cfg \<le> 100) \<and>
   setFanSpeed (Num (of_int n)) = \<lparr>ok = True, percent = Num (of_int (max 0 (min 100 n)))\<rparr>"
  using presets_fanSpeed setFanSpeed_clamps by blast

theorem fanSpeed_bounded_witness:
  "(''silent'', the (map_of presets ''silent'')) \<in> set presets \<and>
   0 \<le> fanSpeed (the (map_of presets ''silent'')) \<and>
   fanSpeed (the (map_of presets ''silent'')) \<le> 100 \<and>
   setFanSpeed (Num 250) = \<lparr>ok = True, percent = Num 100\<rparr> \<and>
   setFanSpeed (Num (- 3)) = \<lparr>ok = True, percent = Num 0\<rparr> \<and>
   setFanSpeed (Num 42) = \<lparr>ok = True, percent = Num 42\<rparr>"
proof -
  have m: "(''silent'', the (map_of presets ''silent'')) \<in> set presets"
    by (simp add: presets_def)
  show ?thesis
    using fanSpeed_bounded [of 250] fanSpeed_bounded [of "- 3"] fanSpeed_bounded [of 42] m
    by auto
qed

section \<open>Properties of the name normalisation\<close>

lemma normalizeProfileName_keys:
  "\<forall>(k, cfg) \<in> set presets. normalizeProfileName k = JStr k"
  by code_simp

lemma normalizeProfileName_display:
  "\<forall>(k, cfg) \<in> set presets.
     (case map_of presetDisplayNames k of
        Some d \<Rightarrow> normalizeProfileName d = JStr k
      | None \<Rightarrow> False)"
  by code_simp

lemma name_map_values:
  "map_of name_map m = Some v \<Longrightarrow> v \<noteq> [] \<and> v \<in> fst ` set presets"
  by (auto simp: name_map_def presets_def split: if_splits)

lemma normalizeProfileName_range:
  "normalizeProfileName name = JNull \<or>
   (\<exists>k \<in> fst ` set presets. normalizeProfileName name = JStr k) \<or>
   (\<exists>p \<in> set object_prototype_names. normalizeProfileName name = JBuiltin p)"
proof -
  define m where
    "m = filter (\<lambda>c. \<not> (is_space c \<or> c = CHR ''+'' \<or> c = CHR ''-'' \<or> c = CHR ''_''))
           (toLowerCase name)"
  have eq: "normalizeProfileName name = js_or (member_value (js_get name_map m)) JNull"
    by (simp add: normalizeProfileName_def m_def)
  show ?thesis
  proof (cases "map_of name_map m")
    case None
    then show ?thesis by (simp add: eq js_get_def js_or_def)
  next
    case (Some v)
    then have "v \<noteq> [] \<and> v \<in> fst ` set presets" by (rule name_map_values)
    then show ?thesis using Some by (simp add: eq js_get_def js_or_def)
  qed
qed

text \<open>
  Claim C9. The claim is that \<open>normalizeProfileName\<close> returns, for every input, null or
  a key of the presets table. The lookup \<open>map[m]\<close> also finds what the literal inherits
  from \<open>Object.prototype\<close>: for the name \<open>constructor\<close> the result is that built-in
  function, neither null nor a string.
\<close>

theorem normalizeProfileName_constructor:
  "normalizeProfileName ''constructor'' = JBuiltin ''constructor'' \<and>
   ''constructor'' \<notin> fst ` set presets"
proof -
  have "normalizeProfileName ''constructor'' = JBuiltin ''constructor''" by code_simp
  moreover have "''constructor'' \<notin> fst ` set presets" by (simp add: presets_def)
  ultimately show ?thesis by simp
qed

section \<open>Properties of the Turbo sequence\<close>

lemma run_loop_counts:
  "run_loop env ops (n, e, executed) =
     (n + length ops,
      e + length (filter (\<lambda>op. run_operation env op \<noteq> Returned True) ops),
      executed @ ops)"
proof (induction ops arbitrary: n e executed)
  case Nil
  then show ?case by simp
next
  case (Cons op ops)
  show ?case
  proof (cases "run_operation env op")
    case (Returned b)
    then show ?thesis using Cons.IH by (cases b) simp_all
  next
    case Threw
    then show ?thesis using Cons.IH by simp
  qed
qed

lemma operations_length: "length (operations preset) = 7"
  by (simp add: operations_def Let_def)

lemma operations_names:
  "map fst (operations preset) =
     [Some FreeRam, Some CloseBackgroundApps, Some SetProcessPriority, Some ApplyPowerPlan,
      Some ClearTempCaches, Some SetFanSpeed, Some ApplyGpuBoost]"
  by (simp add: operations_def Let_def hasFan_def hasGpu_def)

text \<open>The run for an argument whose key finds something in the table object.\<close>

lemma runTurbo_found:
  assumes "member_truthy (js_get presets (turbo_key ident))"
  shows "runTurbo rt env rd ident st =
     (Inr \<lparr>steps = 7,
           errors = length (filter (\<lambda>op. run_operation env op \<noteq> Returned True)
                              (operations (js_get presets (turbo_key ident)))),
           tempGuard = (turbo_key ident = ''battlefield6''),
           executionTime = endClock rd - startClock rd,
           profile = js_or (member_value (js_get presetDisplayNames (turbo_key ident)))
                       (JStr ident)\<rparr>,
      (activateTelemetryBoost rd (turbo_key ident) (turbo_key ident = ''battlefield6'') st)
        \<lparr>storage :=
           (storage st)(''gb.turbo'' \<mapsto>
              stringify rt
                (JObj [(''lastTurboAt'', JNum (Num (of_int (saveClock rd)))),
                       (''lastTurboProfile'', JStr (turbo_key ident))]))\<rparr>,
      operations (js_get presets (turbo_key ident)))"
  using assms
  by (simp add: runTurbo_def Let_def run_loop_counts operations_length
      activateTelemetryBoost_def)

lemma runTurbo_known_key:
  assumes "map_of presets (turbo_key ident) = Some cfg"
  shows "\<exists>res st'.
           runTurbo rt env rd ident st = (Inr res, st', operations (Own cfg)) \<and>
           steps res = 7 \<and>
           errors res = length (filter (\<lambda>op. \<not> step env (fst op) (snd op))
                                  (operations (Own cfg))) \<and>
           errors res \<le> steps res \<and>
           tempGuard res = (turbo_key ident = ''battlefield6'')"
proof -
  have g: "js_get presets (turbo_key ident) = Own cfg"
    using assms by (simp add: js_get_def)
  have "length (filter (\<lambda>op. \<not> step env (fst op) (snd op)) (operations (Own cfg)))
          \<le> length (operations (Own cfg))"
    by (rule length_filter_le)
  then have le: "length (filter (\<lambda>op. \<not> step env (fst op) (snd op)) (operations (Own cfg)))
                   \<le> 7"
    by (simp add: operations_length)
  show ?thesis
    using le by (simp add: runTurbo_found g run_operation_def)
qed

lemma runTurbo_unknown_key:
  assumes "turbo_key ident \<notin> fst ` set presets"
    and "turbo_key ident \<notin> set object_prototype_names"
  shows "runTurbo rt env rd ident st = (Inl (profile_not_found ident), st, [])"
proof -
  have "map_of presets (turbo_key ident) = None"
    using assms(1) by (simp add: map_of_eq_None_iff)
  then have "js_get presets (turbo_key ident) = Undefined"
    using assms(2) by (simp add: js_get_def)
  then show ?thesis by (simp add: runTurbo_def)
qed

text \<open>
  Claim C3. The claim is that \<open>runTurbo\<close> throws, without running an operation, for
  every identifier whose key is not a key of the presets table. The lookup
  \<open>presets[profileKey]\<close> also finds what the table object inherits from
  \<open>Object.prototype\<close>: for the identifier \<open>constructor\<close> nothing is thrown, the seven
  operations run and a result with 7 steps is returned.
\<close>

theorem runTurbo_constructor:
  "''constructor'' \<notin> fst ` set presets \<and>
   turbo_key ''constructor'' = ''constructor'' \<and>
   fst (runTurbo demo_json demo_preview demo_readings ''constructor'' demo_state) =
     Inr \<lparr>steps = 7, errors = 0, tempGuard = False, executionTime = 300,
          profile = JBuiltin ''constructor''\<rparr> \<and>
   map fst (snd (snd (runTurbo demo_json demo_preview demo_readings ''constructor''
                        demo_state))) =
     [Some FreeRam, Some CloseBackgroundApps, Some SetProcessPriority, Some ApplyPowerPlan,
      Some ClearTempCaches, Some SetFanSpeed, Some ApplyGpuBoost]"
proof -
  have k: "turbo_key ''constructor'' = ''constructor''" by code_simp
  have n: "''constructor'' \<notin> fst ` set presets" by (simp add: presets_def)
  have g: "js_get presets ''constructor'' = Inherited ''constructor''"
    by (simp add: js_get_def presets_def object_prototype_names_def)
  have d: "js_get presetDisplayNames ''constructor'' = Inherited ''constructor''"
    by (simp add: js_get_def presetDisplayNames_def object_prototype_names_def)
  have e: "filter (\<lambda>op. run_operation demo_preview op \<noteq> Returned True)
             (operations (Inherited ''constructor'')) = []"
    by (simp add: run_operation_def step_def demo_preview_def operations_def Let_def)
  have t: "member_truthy (js_get presets (turbo_key ''constructor''))"
    by (simp add: k g)
  show ?thesis
    by (simp add: runTurbo_found [OF t] k g d e n js_or_def operations_names
        demo_readings_def)
qed

subsection \<open>Rounding of the products\<close>

lemma round_half_even_nonneg: "0 \<le> y \<Longrightarrow> 0 \<le> round_half_even y"
  by (auto simp: round_half_even_def Let_def)

lemma round_half_even_le: "y \<le> of_int n \<Longrightarrow> round_half_even y \<le> n"
proof -
  assume le: "y \<le> of_int n"
  show ?thesis
  proof (cases "y = of_int n")
    case True
    then show ?thesis by (simp add: round_half_even_def)
  next
    case False
    with le have "y < of_int n" by simp
    then have "\<lfloor>y\<rfloor> < n" by (simp add: floor_less_iff)
    then show ?thesis by (auto simp: round_half_even_def Let_def)
  qed
qed

lemma round_half_even_below: "y < of_int n - 1 / 2 \<Longrightarrow> round_half_even y \<le> n - 1"
proof -
  assume lt: "y < of_int n - 1 / 2"
  then have "y < of_int n" by simp
  then have f: "\<lfloor>y\<rfloor> \<le> n - 1" by (simp add: floor_less_iff)
  show ?thesis
  proof (cases "\<lfloor>y\<rfloor> = n - 1")
    case True
    then have "y - of_int \<lfloor>y\<rfloor> < 1 / 2" using lt by simp
    then show ?thesis using True by (simp add: round_half_even_def Let_def)
  next
    case False
    with f have "\<lfloor>y\<rfloor> + 1 \<le> n - 1" by simp
    then show ?thesis by (auto simp: round_half_even_def Let_def)
  qed
qed

lemma round_half_even_int: "round_half_even (of_int k) = k"
  by (simp add: round_half_even_def)

lemma ulp_pos: "0 < ulp x"
  by (simp add: ulp_def)

lemma floorlog_binade: "2 ^ k \<le> n \<Longrightarrow> n < 2 ^ Suc k \<Longrightarrow> floorlog 2 n = Suc k"
proof -
  assume a: "2 ^ k \<le> n" and b: "n < 2 ^ Suc k"
  have "floorlog 2 n \<le> Suc k" using b by (intro floorlog_leI) auto
  moreover have "Suc k \<le> floorlog 2 n" using a by (intro floorlog_geI) auto
  ultimately show ?thesis by simp
qed

lemma ulp_binade:
  assumes "2 ^ k \<le> x" and "x < 2 ^ Suc k"
  shows "ulp x = 2 ^ k / 2 ^ 52"
proof -
  have one: "1 \<le> x"
  proof -
    have "(1::rat) \<le> 2 ^ k" by simp
    then show ?thesis using assms(1) by linarith
  qed
  have "of_int (2 ^ k) \<le> x" using assms(1) by simp
  then have lo: "2 ^ k \<le> \<lfloor>x\<rfloor>" by (simp only: le_floor_iff)
  have "x < of_int (2 ^ Suc k)" using assms(2) by simp
  then have hi: "\<lfloor>x\<rfloor> < 2 ^ Suc k" by (simp only: floor_less_iff)
  have "2 ^ k \<le> nat \<lfloor>x\<rfloor>" using lo by (simp add: le_nat_iff)
  moreover have "nat \<lfloor>x\<rfloor> < 2 ^ Suc k"
  proof -
    have "0 \<le> \<lfloor>x\<rfloor>" using one by simp
    moreover have "\<lfloor>x\<rfloor> < int (2 ^ Suc k)" using hi by simp
    ultimately show ?thesis by (simp only: nat_less_iff)
  qed
  ultimately have "floorlog 2 (nat \<lfloor>x\<rfloor>) = Suc k" by (rule floorlog_binade)
  then show ?thesis using one by (simp add: ulp_def)
qed

lemma ulp_below_one:
  assumes "x < 1"
  shows "\<exists>j. ulp x = 1 / 2 ^ j"
proof -
  have n: "\<not> 1 \<le> x" using assms by simp
  show ?thesis
  proof (cases "1 / 2 ^ 1022 \<le> x")
    case True
    then have "ulp x = 1 / 2 ^ (floorlog 2 (nat (\<lceil>1 / x\<rceil> - 1)) + 52)"
      unfolding ulp_def using n by (simp only: if_True if_False)
    then show ?thesis by blast
  next
    case False
    then have "ulp x = 1 / 2 ^ 1074"
      unfolding ulp_def using n by (simp only: if_False)
    then show ?thesis by blast
  qed
qed

lemma ulp_half:
  assumes "1 / 2 \<le> x" and "x < 1"
  shows "ulp x = 1 / 2 ^ 53"
proof -
  have pos: "0 < x" using assms(1) by simp
  have "1 / x \<le> 2" using assms(1) pos by (simp add: field_simps)
  moreover have "1 < 1 / x" using assms(2) pos by simp
  ultimately have "\<lceil>1 / x\<rceil> = 2" by (simp add: ceiling_eq_iff)
  moreover have "1 / 2 ^ 1022 \<le> x"
  proof -
    have "(1::rat) / 2 ^ 1022 \<le> 1 / 2" by simp
    then show ?thesis using assms(1) by linarith
  qed
  ultimately show ?thesis using assms(2) by (simp add: ulp_def compute_floorlog)
qed


lemma to_double_nonneg: "0 \<le> x \<Longrightarrow> 0 \<le> to_double x"
proof -
  assume nn: "0 \<le> x"
  show ?thesis
  proof (cases "x = 0")
    case True
    then show ?thesis by (simp add: to_double_def)
  next
    case False
    with nn have pos: "0 < x" by simp
    have "0 \<le> x / ulp x" using pos ulp_pos [of x] by simp
    then have "0 \<le> round_half_even (x / ulp x)" by (rule round_half_even_nonneg)
    then have "0 \<le> ulp x * of_int (round_half_even (x / ulp x))"
      using ulp_pos [of x] by simp
    then show ?thesis using pos by (simp add: to_double_def)
  qed
qed

lemma to_double_le_grid:
  assumes "0 < x" and "x \<le> of_int n * ulp x"
  shows "to_double x \<le> of_int n * ulp x"
proof -
  have "x / ulp x \<le> of_int n"
    using assms(2) ulp_pos [of x] by (simp add: pos_divide_le_eq)
  then have "round_half_even (x / ulp x) \<le> n" by (rule round_half_even_le)
  then have "(of_int (round_half_even (x / ulp x)) :: rat) \<le> of_int n" by simp
  then have "ulp x * of_int (round_half_even (x / ulp x)) \<le> ulp x * of_int n"
    using ulp_pos [of x] by (simp only: mult_le_cancel_left_pos)
  then show ?thesis using assms(1) by (simp add: to_double_def mult.commute)
qed

lemma to_double_below_grid:
  assumes "0 < x" and "x / ulp x < of_int n - 1 / 2"
  shows "to_double x \<le> (of_int n - 1) * ulp x"
proof -
  have "round_half_even (x / ulp x) \<le> n - 1"
    using assms(2) by (rule round_half_even_below)
  then have "(of_int (round_half_even (x / ulp x)) :: rat) \<le> of_int (n - 1)"
    by (simp only: of_int_le_iff)
  then have "ulp x * of_int (round_half_even (x / ulp x)) \<le> ulp x * of_int (n - 1)"
    using ulp_pos [of x] by (simp only: mult_le_cancel_left_pos)
  then show ?thesis using assms(1) by (simp add: to_double_def mult.commute)
qed

lemma to_double_below_one:
  assumes "0 \<le> x" and "x < 1"
  shows "to_double x \<le> 1"
proof (cases "x = 0")
  case True
  then show ?thesis by (simp add: to_double_def)
next
  case False
  with assms(1) have pos: "0 < x" by simp
  obtain j where u: "ulp x = 1 / 2 ^ j" using ulp_below_one [OF assms(2)] by blast
  have one: "(1::rat) = of_int (2 ^ j) * ulp x" by (simp add: u)
  have "x \<le> of_int (2 ^ j) * ulp x" using assms(2) one by simp
  with pos have "to_double x \<le> of_int (2 ^ j) * ulp x" by (rule to_double_le_grid)
  then show ?thesis using one by simp
qed

lemma to_double_binade:
  assumes "2 ^ k \<le> x" and "x < 2 ^ Suc k"
  shows "to_double x \<le> 2 ^ Suc k"
proof -
  have pos: "0 < x"
  proof -
    have "(0::rat) < 2 ^ k" by simp
    then show ?thesis using assms(1) by linarith
  qed
  have u: "ulp x = 2 ^ k / 2 ^ 52" using assms by (rule ulp_binade)
  have top: "(2::rat) ^ Suc k = of_int (2 ^ 53) * ulp x" by (simp add: u)
  have "x \<le> of_int (2 ^ 53) * ulp x" using assms(2) top by simp
  with pos have "to_double x \<le> of_int (2 ^ 53) * ulp x" by (rule to_double_le_grid)
  then show ?thesis using top by simp
qed

lemma to_double_below_four:
  assumes "0 \<le> x" and "x < 4"
  shows "to_double x \<le> 4"
proof -
  consider "x < 1" | "1 \<le> x" "x < 2" | "2 \<le> x" "x < 4" using assms by linarith
  then show ?thesis
  proof cases
    case 1
    then have "to_double x \<le> 1" using assms(1) by (intro to_double_below_one)
    then show ?thesis by simp
  next
    case 2
    then have "to_double x \<le> 2 ^ Suc 0" by (intro to_double_binade) simp_all
    then show ?thesis by simp
  next
    case 3
    then have "to_double x \<le> 2 ^ Suc 1" by (intro to_double_binade) simp_all
    then show ?thesis by simp
  qed
qed

lemma to_double_below_two:
  assumes "0 \<le> x" and "x < 2"
  shows "to_double x \<le> 2"
proof -
  consider "x < 1" | "1 \<le> x" "x < 2" using assms by linarith
  then show ?thesis
  proof cases
    case 1
    then have "to_double x \<le> 1" using assms(1) by (intro to_double_below_one)
    then show ?thesis by simp
  next
    case 2
    then have "to_double x \<le> 2 ^ Suc 0" by (intro to_double_binade) simp_all
    then show ?thesis by simp
  qed
qed

lemma to_double_below_five:
  assumes "4 \<le> x" and "x \<le> 5 - 5 / 2 ^ 53"
  shows "to_double x < 5"
proof -
  have pos: "0 < x" using assms(1) by simp
  have "2 ^ 2 \<le> x" and "x < 2 ^ Suc 2" using assms by simp_all
  then have u: "ulp x = 2 ^ 2 / 2 ^ 52" by (rule ulp_binade)
  have "x / ulp x = x * 2 ^ 50" by (simp add: u)
  also have "\<dots> \<le> (5 - 5 / 2 ^ 53) * 2 ^ 50" using assms(2) by simp
  also have "\<dots> < of_int (5 * 2 ^ 50) - 1 / 2" by simp
  finally have "to_double x \<le> (of_int (5 * 2 ^ 50) - 1) * ulp x"
    using pos by (intro to_double_below_grid)
  also have "\<dots> < 5" by (simp add: u)
  finally show ?thesis .
qed

lemma to_double_below_three:
  assumes "2 \<le> x" and "x \<le> 3 - 3 / 2 ^ 53"
  shows "to_double x < 3"
proof -
  have pos: "0 < x" using assms(1) by simp
  have "2 ^ 1 \<le> x" and "x < 2 ^ Suc 1" using assms by simp_all
  then have u: "ulp x = 2 ^ 1 / 2 ^ 52" by (rule ulp_binade)
  have "x / ulp x = x * 2 ^ 51" by (simp add: u)
  also have "\<dots> \<le> (3 - 3 / 2 ^ 53) * 2 ^ 51" using assms(2) by simp
  also have "\<dots> < of_int (3 * 2 ^ 51) - 1 / 2" by simp
  finally have "to_double x \<le> (of_int (3 * 2 ^ 51) - 1) * ulp x"
    using pos by (intro to_double_below_grid)
  also have "\<dots> < 3" by (simp add: u)
  finally show ?thesis .
qed

lemma double_below_one:
  assumes "is_double r" and "0 \<le> r" and "r < 1"
  shows "r \<le> 1 - 1 / 2 ^ 53"
proof (cases "r < 1 / 2")
  case True
  then show ?thesis by simp
next
  case False
  then have half: "1 / 2 \<le> r" by simp
  then have pos: "0 < r" by simp
  have u: "ulp r = 1 / 2 ^ 53" using half assms(3) by (rule ulp_half)
  define k where "k = round_half_even (r / ulp r)"
  have r: "r = of_int k / 2 ^ 53"
    using assms(1) pos by (simp add: is_double_def to_double_def u k_def)
  have "(of_int k :: rat) < of_int (2 ^ 53)" using assms(3) r by simp
  then have "k < 2 ^ 53" by (simp only: of_int_less_iff)
  then have "k \<le> 2 ^ 53 - 1" by simp
  then have "(of_int k :: rat) \<le> of_int (2 ^ 53 - 1)" by (simp only: of_int_le_iff)
  then show ?thesis using r by simp
qed

lemma floor_ram_draw:
  assumes "is_double r" and "0 \<le> r" and "r < 1"
  shows "0 \<le> \<lfloor>to_double (r * 5)\<rfloor> \<and> \<lfloor>to_double (r * 5)\<rfloor> \<le> 4"
proof -
  have top: "r \<le> 1 - 1 / 2 ^ 53" using assms by (rule double_below_one)
  have nn: "0 \<le> r * 5" using assms(2) by simp
  then have lo: "0 \<le> to_double (r * 5)" by (rule to_double_nonneg)
  have hi: "to_double (r * 5) < 5"
  proof (cases "r * 5 < 4")
    case True
    then have "to_double (r * 5) \<le> 4" using nn by (intro to_double_below_four)
    then show ?thesis by simp
  next
    case False
    then have "4 \<le> r * 5" by simp
    moreover have "r * 5 \<le> 5 - 5 / 2 ^ 53" using top by simp
    ultimately show ?thesis by (rule to_double_below_five)
  qed
  have "\<lfloor>to_double (r * 5)\<rfloor> < 5" using hi by (simp add: floor_less_iff)
  then show ?thesis using lo by simp
qed

lemma floor_temp_draw:
  assumes "is_double r" and "0 \<le> r" and "r < 1"
  shows "0 \<le> \<lfloor>to_double (r * 3)\<rfloor> \<and> \<lfloor>to_double (r * 3)\<rfloor> \<le> 2"
proof -
  have top: "r \<le> 1 - 1 / 2 ^ 53" using assms by (rule double_below_one)
  have nn: "0 \<le> r * 3" using assms(2) by simp
  then have lo: "0 \<le> to_double (r * 3)" by (rule to_double_nonneg)
  have hi: "to_double (r * 3) < 3"
  proof (cases "r * 3 < 2")
    case True
    then have "to_double (r * 3) \<le> 2" using nn by (intro to_double_below_two)
    then show ?thesis by simp
  next
    case False
    then have "2 \<le> r * 3" by simp
    moreover have "r * 3 \<le> 3 - 3 / 2 ^ 53" using top by simp
    ultimately show ?thesis by (rule to_double_below_three)
  qed
  have "\<lfloor>to_double (r * 3)\<rfloor> < 3" using hi by (simp add: floor_less_iff)
  then show ?thesis using lo by simp
qed

text \<open>The two draws of the concrete readings, and the products the functions floor.\<close>

lemma demo_draws:
  "is_double (ramDraw demo_readings)" "0 \<le> ramDraw demo_readings"
  "ramDraw demo_readings < 1"
  "is_double (tempDraw demo_readings)" "0 \<le> tempDraw demo_readings"
  "tempDraw demo_readings < 1"
proof -
  have r: "ramDraw demo_readings = 5404319552844595 / 2 ^ 53"
    and t: "tempDraw demo_readings = 6004799503160661 / 2 ^ 53"
    by (simp_all add: demo_readings_def)
  have ur: "ulp (5404319552844595 / 2 ^ 53) = 1 / 2 ^ 53" by (rule ulp_half) simp_all
  have ut: "ulp (6004799503160661 / 2 ^ 53) = 1 / 2 ^ 53" by (rule ulp_half) simp_all
  have "(5404319552844595 / 2 ^ 53 :: rat) / (1 / 2 ^ 53) = of_int 5404319552844595"
    by simp
  then have "round_half_even ((5404319552844595 / 2 ^ 53) / (1 / 2 ^ 53)) = 5404319552844595"
    by (simp only: round_half_even_int)
  then show "is_double (ramDraw demo_readings)"
    unfolding r is_double_def to_double_def ur by simp
  have "(6004799503160661 / 2 ^ 53 :: rat) / (1 / 2 ^ 53) = of_int 6004799503160661"
    by simp
  then have "round_half_even ((6004799503160661 / 2 ^ 53) / (1 / 2 ^ 53)) = 6004799503160661"
    by (simp only: round_half_even_int)
  then show "is_double (tempDraw demo_readings)"
    unfolding t is_double_def to_double_def ut by simp
  show "0 \<le> ramDraw demo_readings" "ramDraw demo_readings < 1"
    "0 \<le> tempDraw demo_readings" "tempDraw demo_readings < 1"
    by (simp_all add: r t)
qed

lemma demo_products:
  "to_double (ramDraw demo_readings * 5) = 3"
  "to_double (tempDraw demo_readings * 3) = 2"
proof -
  have r: "ramDraw demo_readings * 5 = 27021597764222975 / 2 ^ 53"
    and t: "tempDraw demo_readings * 3 = 18014398509481983 / 2 ^ 53"
    by (simp_all add: demo_readings_def)
  have ur: "ulp (27021597764222975 / 2 ^ 53) = 2 ^ 1 / 2 ^ 52"
    by (rule ulp_binade) simp_all
  have ut: "ulp (18014398509481983 / 2 ^ 53) = 2 ^ 0 / 2 ^ 52"
    by (rule ulp_binade) simp_all
  have qr: "(27021597764222975 / 2 ^ 53 :: rat) / (2 ^ 1 / 2 ^ 52) = 27021597764222975 / 4"
    by simp
  have qt: "(18014398509481983 / 2 ^ 53 :: rat) / (2 ^ 0 / 2 ^ 52) = 18014398509481983 / 2"
    by simp
  have "\<lfloor>27021597764222975 / 4 :: rat\<rfloor> = 6755399441055743"
    by (rule floor_unique) simp_all
  then have "round_half_even (27021597764222975 / 4) = 6755399441055744"
    by (simp add: round_half_even_def)
  then show "to_double (ramDraw demo_readings * 5) = 3"
    unfolding r to_double_def ur qr by simp
  have "\<lfloor>18014398509481983 / 2 :: rat\<rfloor> = 9007199254740991"
    by (rule floor_unique) simp_all
  then have "round_half_even (18014398509481983 / 2) = 9007199254740992"
    by (simp add: round_half_even_def)
  then show "to_double (tempDraw demo_readings * 3) = 2"
    unfolding t to_double_def ut qt by simp
qed

lemma calculateFpsBoost_table:
  "calculateFpsBoost k =
     (if k \<in> {''esports'', ''battleroyale'', ''warzone''} then 5
      else if k = ''aaa'' then 3
      else if k = ''battlefield6'' then 6
      else if k \<in> {''streamgame'', ''arcriders''} then 4
      else if k = ''silent'' then 0
      else 4)"
  by (simp add: calculateFpsBoost_def)

lemma activateTelemetryBoost_state:
  "activeTelemetry (activateTelemetryBoost rd profileKey guard st) =
     activeTelemetry (activateTelemetryBoost rd profileKey guard st')"
  by (simp add: activateTelemetryBoost_def)

lemma runTurbo_telemetry:
  "activeTelemetry (fst (snd (runTurbo rt env rd ident st))) =
     (if member_truthy (js_get presets (turbo_key ident))
      then activeTelemetry
             (activateTelemetryBoost rd (turbo_key ident)
                (turbo_key ident = ''battlefield6'') st)
      else activeTelemetry st)"
proof (cases "member_truthy (js_get presets (turbo_key ident))")
  case True
  then show ?thesis by (simp add: runTurbo_found)
next
  case False
  then show ?thesis by (simp add: runTurbo_def)
qed

lemma runTurbo_boost:
  assumes "fst (runTurbo rt env rd ident st) = Inr res"
  shows "activeTelemetry (fst (snd (runTurbo rt env rd ident st))) =
           activeTelemetry (activateTelemetryBoost rd (turbo_key ident) (tempGuard res) st')"
proof (cases "member_truthy (js_get presets (turbo_key ident))")
  case True
  then have "tempGuard res = (turbo_key ident = ''battlefield6'')"
    using assms by (auto simp: runTurbo_found)
  then show ?thesis
    using True activateTelemetryBoost_state [of rd _ _ st st']
    by (simp add: runTurbo_telemetry)
next
  case False
  then show ?thesis using assms by (simp add: runTurbo_def)
qed

text \<open>
  Claim C5. The boost that \<open>activateTelemetryBoost\<close> stores is determined by the
  profile key, the tempGuard flag and the two random draws, which are doubles at least 0
  and below 1: \<open>fpsBoost\<close> is the fixed value of the profile, \<open>ramReduction\<close> is an
  integer from 8 to 12, \<open>tempReduction\<close> is an integer from 2 to 4 under tempGuard and
  0 otherwise, and the duration is 60000; the two floors are taken of the products as
  the machine rounds them. A completed run of \<open>runTurbo\<close> leaves exactly the boost that
  \<open>activateTelemetryBoost\<close> computes from the key and the tempGuard flag of the
  result, whatever the state before; so the boost is the same for every two
  environments of the operations, that is, whatever the step and error tallies.
\<close>

theorem telemetry_boost_fabricated:
  assumes "is_double (ramDraw rd)" and "0 \<le> ramDraw rd" and "ramDraw rd < 1"
    and "is_double (tempDraw rd)" and "0 \<le> tempDraw rd" and "tempDraw rd < 1"
  shows "(\<exists>b. activeTelemetry (activateTelemetryBoost rd profileKey guard st) = Some b \<and>
            fpsBoost b =
              (if profileKey \<in> {''esports'', ''battleroyale'', ''warzone''} then 5
               else if profileKey = ''aaa'' then 3
               else if profileKey = ''battlefield6'' then 6
               else if profileKey \<in> {''streamgame'', ''arcriders''} then 4
               else if profileKey = ''silent'' then 0
               else 4) \<and>
            8 \<le> ramReduction b \<and> ramReduction b \<le> 12 \<and>
            (guard \<longrightarrow> 2 \<le> tempReduction b \<and> tempReduction b \<le> 4) \<and>
            (\<not> guard \<longrightarrow> tempReduction b = 0) \<and>
            boostDuration b = 60000) \<and>
         (fst (runTurbo rt env rd ident st) = Inr res \<longrightarrow>
            activeTelemetry (fst (snd (runTurbo rt env rd ident st))) =
              activeTelemetry
                (activateTelemetryBoost rd (turbo_key ident) (tempGuard res) st')) \<and>
         activeTelemetry (fst (snd (runTurbo rt env rd ident st))) =
           activeTelemetry (fst (snd (runTurbo rt env' rd ident st)))"
proof -
  have ram: "0 \<le> \<lfloor>to_double (ramDraw rd * 5)\<rfloor> \<and> \<lfloor>to_double (ramDraw rd * 5)\<rfloor> \<le> 4"
    using assms(1,2,3) by (rule floor_ram_draw)
  have temp: "0 \<le> \<lfloor>to_double (tempDraw rd * 3)\<rfloor> \<and> \<lfloor>to_double (tempDraw rd * 3)\<rfloor> \<le> 2"
    using assms(4,5,6) by (rule floor_temp_draw)
  have shape:
    "\<exists>b. activeTelemetry (activateTelemetryBoost rd profileKey guard st) = Some b \<and>
         fpsBoost b = calculateFpsBoost profileKey \<and>
         8 \<le> ramReduction b \<and> ramReduction b \<le> 12 \<and>
         (guard \<longrightarrow> 2 \<le> tempReduction b \<and> tempReduction b \<le> 4) \<and>
         (\<not> guard \<longrightarrow> tempReduction b = 0) \<and>
         boostDuration b = 60000"
    using ram temp by (simp add: activateTelemetryBoost_def)
  have run:
    "fst (runTurbo rt env rd ident st) = Inr res \<longrightarrow>
       activeTelemetry (fst (snd (runTurbo rt env rd ident st))) =
         activeTelemetry (activateTelemetryBoost rd (turbo_key ident) (tempGuard res) st')"
    using runTurbo_boost [of rt env rd ident st res st'] by blast
  have same:
    "activeTelemetry (fst (snd (runTurbo rt env rd ident st))) =
       activeTelemetry (fst (snd (runTurbo rt env' rd ident st)))"
    by (simp only: runTurbo_telemetry)
  show ?thesis
    using shape run same unfolding calculateFpsBoost_table by blast
qed

theorem telemetry_boost_fabricated_witness:
  "is_double (ramDraw demo_readings) \<and> 0 \<le> ramDraw demo_readings \<and>
   ramDraw demo_readings < 1 \<and>
   is_double (tempDraw demo_readings) \<and> 0 \<le> tempDraw demo_readings \<and>
   tempDraw demo_readings < 1 \<and>
   activeTelemetry (activateTelemetryBoost demo_readings ''battlefield6'' True demo_state) =
     Some \<lparr>fpsBoost = 6, ramReduction = 11, tempReduction = 4, boostDuration = 60000\<rparr> \<and>
   (\<exists>b. activeTelemetry (activateTelemetryBoost demo_readings ''battlefield6'' True demo_state)
           = Some b \<and>
         fpsBoost b = 6 \<and> 8 \<le> ramReduction b \<and> ramReduction b \<le> 12 \<and>
         2 \<le> tempReduction b \<and> tempReduction b \<le> 4 \<and> boostDuration b = 60000) \<and>
   (\<exists>b. activeTelemetry (activateTelemetryBoost demo_readings ''silent'' False demo_state)
           = Some b \<and>
         fpsBoost b = 0 \<and> 8 \<le> ramReduction b \<and> ramReduction b \<le> 12 \<and>
         tempReduction b = 0 \<and> boostDuration b = 60000) \<and>
   activeTelemetry
     (fst (snd (runTurbo demo_json demo_desktop demo_readings ''Battlefield 6'' demo_state))) =
     Some \<lparr>fpsBoost = 6, ramReduction = 11, tempReduction = 4, boostDuration = 60000\<rparr> \<and>
   activeTelemetry
     (fst (snd (runTurbo demo_json demo_preview demo_readings ''Battlefield 6'' demo_state))) =
   activeTelemetry
     (fst (snd (runTurbo demo_json demo_desktop demo_readings ''Battlefield 6'' demo_state)))"
proof -
  note d = demo_draws
  have k: "turbo_key ''Battlefield 6'' = ''battlefield6''" by code_simp
  have t: "member_truthy (js_get presets (turbo_key ''Battlefield 6''))"
    by (simp add: k js_get_def presets_def)
  obtain res where r:
    "fst (runTurbo demo_json demo_desktop demo_readings ''Battlefield 6'' demo_state) = Inr res"
    and g: "tempGuard res = True"
    by (simp add: runTurbo_found [OF t] k)
  have value_eq:
    "activeTelemetry (activateTelemetryBoost demo_readings ''battlefield6'' True demo_state) =
       Some \<lparr>fpsBoost = 6, ramReduction = 11, tempReduction = 4, boostDuration = 60000\<rparr>"
    by (simp add: activateTelemetryBoost_def demo_products calculateFpsBoost_def)
  note bf6 = telemetry_boost_fabricated [OF d, of "''battlefield6''" True demo_state
      demo_json demo_desktop "''Battlefield 6''" res demo_state demo_preview]
  note silent = telemetry_boost_fabricated [OF d, of "''silent''" False demo_state
      demo_json demo_desktop "''Battlefield 6''" res demo_state demo_preview]
  have guarded:
    "\<exists>b. activeTelemetry (activateTelemetryBoost demo_readings ''battlefield6'' True demo_state)
           = Some b \<and>
         fpsBoost b = 6 \<and> 8 \<le> ramReduction b \<and> ramReduction b \<le> 12 \<and>
         2 \<le> tempReduction b \<and> tempReduction b \<le> 4 \<and> boostDuration b = 60000"
    using bf6 by simp
  have unguarded:
    "\<exists>b. activeTelemetry (activateTelemetryBoost demo_readings ''silent'' False demo_state)
           = Some b \<and>
         fpsBoost b = 0 \<and> 8 \<le> ramReduction b \<and> ramReduction b \<le> 12 \<and>
         tempReduction b = 0 \<and> boostDuration b = 60000"
    using silent by simp
  from bf6 r have
    "activeTelemetry
       (fst (snd (runTurbo demo_json demo_desktop demo_readings ''Battlefield 6''
                    demo_state))) =
     activeTelemetry
       (activateTelemetryBoost demo_readings (turbo_key ''Battlefield 6'') (tempGuard res)
          demo_state)"
    by blast
  then have after:
    "activeTelemetry
       (fst (snd (runTurbo demo_json demo_desktop demo_readings ''Battlefield 6''
                    demo_state))) =
     Some \<lparr>fpsBoost = 6, ramReduction = 11, tempReduction = 4, boostDuration = 60000\<rparr>"
    unfolding k g value_eq .
  from bf6 have same:
    "activeTelemetry
       (fst (snd (runTurbo demo_json demo_desktop demo_readings ''Battlefield 6''
                    demo_state))) =
     activeTelemetry
       (fst (snd (runTurbo demo_json demo_preview demo_readings ''Battlefield 6''
                    demo_state)))"
    by blast
  show ?thesis using d value_eq guarded unguarded after same by simp
qed

text \<open>
  Claim C4. After a completed \<open>runTurbo\<close>, the storage key \<open>gb.turbo\<close> holds the
  JSON text of an object whose \<open>lastTurboAt\<close> is the clock reading taken at the end of
  the run and whose \<open>lastTurboProfile\<close> is the internal key, not the display name.
  \<open>getLastTurboData\<close> returns null when the key is absent or its text does not parse,
  and the parsed value otherwise; so it gives back the object that the run stored,
  \<open>JSON.parse\<close> being the inverse of \<open>JSON.stringify\<close> on it.
\<close>

theorem turbo_persisted:
  "(fst (runTurbo rt env rd ident st) = Inr res \<longrightarrow>
      storage (fst (snd (runTurbo rt env rd ident st))) ''gb.turbo'' =
        Some (stringify rt
                (JObj [(''lastTurboAt'', JNum (Num (of_int (saveClock rd)))),
                       (''lastTurboProfile'', JStr (turbo_key ident))]))) \<and>
   (storage s ''gb.turbo'' = None \<longrightarrow> getLastTurboData rt s = JNull) \<and>
   (storage s ''gb.turbo'' = Some d \<and> parse rt d = None \<longrightarrow> getLastTurboData rt s = JNull) \<and>
   (storage s ''gb.turbo'' = Some d \<and> d \<noteq> [] \<and> parse rt d = Some v \<longrightarrow>
      getLastTurboData rt s = v) \<and>
   (fst (runTurbo rt env rd ident st) = Inr res \<and>
    stringify rt (JObj [(''lastTurboAt'', JNum (Num (of_int (saveClock rd)))),
                        (''lastTurboProfile'', JStr (turbo_key ident))]) \<noteq> [] \<and>
    parse rt (stringify rt (JObj [(''lastTurboAt'', JNum (Num (of_int (saveClock rd)))),
                                  (''lastTurboProfile'', JStr (turbo_key ident))])) =
      Some (JObj [(''lastTurboAt'', JNum (Num (of_int (saveClock rd)))),
                  (''lastTurboProfile'', JStr (turbo_key ident))]) \<longrightarrow>
      getLastTurboData rt (fst (snd (runTurbo rt env rd ident st))) =
        JObj [(''lastTurboAt'', JNum (Num (of_int (saveClock rd)))),
              (''lastTurboProfile'', JStr (turbo_key ident))])"
proof -
  have stored:
    "fst (runTurbo rt env rd ident st) = Inr res \<Longrightarrow>
       storage (fst (snd (runTurbo rt env rd ident st))) ''gb.turbo'' =
         Some (stringify rt
                 (JObj [(''lastTurboAt'', JNum (Num (of_int (saveClock rd)))),
                        (''lastTurboProfile'', JStr (turbo_key ident))]))"
  proof (cases "member_truthy (js_get presets (turbo_key ident))")
    case True
    then show ?thesis by (simp add: runTurbo_found)
  next
    case False
    assume "fst (runTurbo rt env rd ident st) = Inr res"
    with False show ?thesis by (simp add: runTurbo_def)
  qed
  have absent: "storage s ''gb.turbo'' = None \<Longrightarrow> getLastTurboData rt s = JNull"
    by (simp add: getLastTurboData_def)
  have broken:
    "storage s ''gb.turbo'' = Some d \<Longrightarrow> parse rt d = None \<Longrightarrow> getLastTurboData rt s = JNull"
    by (simp add: getLastTurboData_def)
  have parsed:
    "\<And>s d v. storage s ''gb.turbo'' = Some d \<Longrightarrow> d \<noteq> [] \<Longrightarrow> parse rt d = Some v \<Longrightarrow>
       getLastTurboData rt s = v"
    by (simp add: getLastTurboData_def)
  show ?thesis
    using stored absent broken parsed by metis
qed

theorem turbo_persisted_witness:
  "storage (fst (snd (runTurbo demo_json demo_desktop demo_readings ''E-Sports'' demo_state)))
     ''gb.turbo'' = Some ''turbo-record'' \<and>
   getLastTurboData demo_json
     (fst (snd (runTurbo demo_json demo_desktop demo_readings ''E-Sports'' demo_state))) =
     JObj [(''lastTurboAt'', JNum (Num 1700000000400)),
           (''lastTurboProfile'', JStr ''esports'')] \<and>
   getLastTurboData demo_json demo_state = JNull \<and>
   getLastTurboData demo_json (demo_state\<lparr>storage := [''gb.turbo'' \<mapsto> ''{broken'']\<rparr>) = JNull \<and>
   getLastTurboData demo_json (demo_state\<lparr>storage := [''gb.turbo'' \<mapsto> ''turbo-record'']\<rparr>) =
     JObj [(''lastTurboAt'', JNum (Num 1700000000400)),
           (''lastTurboProfile'', JStr ''esports'')]"
proof -
  have k: "turbo_key ''E-Sports'' = ''esports''" by code_simp
  have t: "member_truthy (js_get presets (turbo_key ''E-Sports''))"
    by (simp add: k js_get_def presets_def)
  obtain res where r:
    "fst (runTurbo demo_json demo_desktop demo_readings ''E-Sports'' demo_state) = Inr res"
    by (simp add: runTurbo_found [OF t])
  have data:
    "JObj [(''lastTurboAt'', JNum (Num (of_int (saveClock demo_readings)))),
           (''lastTurboProfile'', JStr (turbo_key ''E-Sports''))] = demo_data"
    by (simp add: k demo_data_def demo_readings_def)
  have text_eq: "stringify demo_json demo_data = ''turbo-record''"
    by (simp add: demo_json_def)
  have inverse_eq: "parse demo_json ''turbo-record'' = Some demo_data"
    by (simp add: demo_json_def)
  have none: "storage demo_state ''gb.turbo'' = None"
    by (simp add: demo_state_def)
  have bad: "storage (demo_state\<lparr>storage := [''gb.turbo'' \<mapsto> ''{broken'']\<rparr>) ''gb.turbo''
               = Some ''{broken'' \<and> parse demo_json ''{broken'' = None"
    by (simp add: demo_json_def)
  have good:
    "storage (demo_state\<lparr>storage := [''gb.turbo'' \<mapsto> ''turbo-record'']\<rparr>) ''gb.turbo''
       = Some ''turbo-record'' \<and> ''turbo-record'' \<noteq> [] \<and>
     parse demo_json ''turbo-record'' = Some demo_data"
    by (simp add: demo_json_def)
  note run = turbo_persisted [of demo_json demo_desktop demo_readings "''E-Sports''"
      demo_state res demo_state "''{broken''" JNull]
  note run2 = turbo_persisted [of demo_json demo_desktop demo_readings "''E-Sports''"
      demo_state res "demo_state\<lparr>storage := [''gb.turbo'' \<mapsto> ''{broken'']\<rparr>"
      "''{broken''" JNull]
  note run3 = turbo_persisted [of demo_json demo_desktop demo_readings "''E-Sports''"
      demo_state res "demo_state\<lparr>storage := [''gb.turbo'' \<mapsto> ''turbo-record'']\<rparr>"
      "''turbo-record''" demo_data]
  from run r have p1:
    "storage (fst (snd (runTurbo demo_json demo_desktop demo_readings ''E-Sports''
                          demo_state))) ''gb.turbo'' = Some ''turbo-record''"
    unfolding data text_eq by blast
  from run r have p2:
    "getLastTurboData demo_json
       (fst (snd (runTurbo demo_json demo_desktop demo_readings ''E-Sports'' demo_state))) =
     demo_data"
    unfolding data text_eq using inverse_eq by simp
  from run none have p3: "getLastTurboData demo_json demo_state = JNull" by blast
  from run2 bad have p4:
    "getLastTurboData demo_json (demo_state\<lparr>storage := [''gb.turbo'' \<mapsto> ''{broken'']\<rparr>)
       = JNull"
    by blast
  from run3 good have p5:
    "getLastTurboData demo_json
       (demo_state\<lparr>storage := [''gb.turbo'' \<mapsto> ''turbo-record'']\<rparr>) = demo_data"
    by blast
  show ?thesis using p1 p2 p3 p4 p5 unfolding demo_data_def by blast
qed

section \<open>Simulated failures\<close>

lemma step_fails_iff:
  "step env fnReal args = False \<longleftrightarrow>
     isDesktop env \<and> (\<exists>f. fnReal = Some f \<and> fnThrows env f args)"
  by (auto simp: step_def split: option.splits)

lemma restored_operations:
  "turboOperations_freeRam r = (\<not> r < 1 / 10)"
  "turboOperations_closeBackgroundApps behavior r = (\<not> r < 1 / 10)"
  "turboOperations_setCpuPriority priority r = (\<not> r < 1 / 10)"
  "turboOperations_applyPowerPlan mode r = (\<not> r < 1 / 10)"
  "turboOperations_applyGpuBoost boost r = (\<not> r < 1 / 10)"
  "turboOperations_cleanTempCaches r = (\<not> r < 1 / 10)"
  "turboOperations_networkBoostBasic r = (\<not> r < 1 / 10)"
  by (simp_all add: shouldFail_def turboOperations_freeRam_def
      turboOperations_closeBackgroundApps_def turboOperations_setCpuPriority_def
      turboOperations_applyPowerPlan_def turboOperations_applyGpuBoost_def
      turboOperations_cleanTempCaches_def turboOperations_networkBoostBasic_def)

lemma restored_setFanSpeed:
  "turboOperations_setFanSpeed speed guard tempRandom r =
     ((guard \<and> 80 < \<lfloor>tempRandom * 40\<rfloor> + 60) \<or> \<not> r < 1 / 10)"
  by (simp add: turboOperations_setFanSpeed_def shouldFail_def Let_def)

text \<open>
  Claim C6, as stated, fails on the current engine: its \<open>step\<close> draws no random number,
  and a simulated step succeeds also where a draw of 0 would have to make it fail.
\<close>

theorem step_simulated_counterexample:
  "\<not> ((step demo_preview (Some FreeRam) [] = False) = ((0::rat) < 1 / 10))"
  by (simp add: step_def demo_preview_def)

text \<open>
  Claim C6, amended. In the earlier engine kept under \<open>temp-project-restore\<close>,
  \<open>shouldFail\<close> holds exactly when the draw is below 0.1, and a simulated operation
  reports failure exactly then (\<open>setFanSpeed\<close> only while tempGuard is off or the
  simulated temperature is at most 80). In the current engine a simulated step, one run
  outside the desktop or without a real function, always succeeds, and a step fails
  exactly when it runs on the desktop and its real function throws.
\<close>

theorem simulated_failure:
  "shouldFail r = (r < 1 / 10) \<and>
   turboOperations_freeRam r = (\<not> r < 1 / 10) \<and>
   turboOperations_closeBackgroundApps behavior r = (\<not> r < 1 / 10) \<and>
   turboOperations_setCpuPriority priority r = (\<not> r < 1 / 10) \<and>
   turboOperations_applyPowerPlan mode r = (\<not> r < 1 / 10) \<and>
   turboOperations_applyGpuBoost boost r = (\<not> r < 1 / 10) \<and>
   turboOperations_cleanTempCaches r = (\<not> r < 1 / 10) \<and>
   turboOperations_networkBoostBasic r = (\<not> r < 1 / 10) \<and>
   turboOperations_setFanSpeed speed guard tempRandom r =
     ((guard \<and> 80 < \<lfloor>tempRandom * 40\<rfloor> + 60) \<or> \<not> r < 1 / 10) \<and>
   (\<not> isDesktop env \<or> fnReal = None \<longrightarrow> step env fnReal args = True) \<and>
   (step env fnReal args = False \<longleftrightarrow>
      isDesktop env \<and> (\<exists>f. fnReal = Some f \<and> fnThrows env f args))"
proof -
  have "\<not> isDesktop env \<or> fnReal = None \<longrightarrow> step env fnReal args = True"
    using step_fails_iff [of env fnReal args] by auto
  then show ?thesis
    using step_fails_iff [of env fnReal args]
    by (simp add: shouldFail_def restored_operations restored_setFanSpeed)
qed

theorem simulated_failure_witness:
  "\<not> isDesktop demo_preview \<and>
   step demo_preview (Some FreeRam) [] = True \<and>
   turboOperations_freeRam (1 / 20) = False \<and>
   turboOperations_freeRam (1 / 2) = True \<and>
   turboOperations_setFanSpeed 100 True (9 / 10) (1 / 20) = True \<and>
   step demo_desktop (Some ApplyPowerPlan) [JStr ''performance''] = False"
proof -
  have a: "\<not> isDesktop demo_preview" by (simp add: demo_preview_def)
  have b: "isDesktop demo_desktop \<and>
           (\<exists>f. Some ApplyPowerPlan = Some f \<and>
                fnThrows demo_desktop f [JStr ''performance''])"
    by (simp add: demo_desktop_def)
  have c: "\<lfloor>(9 / 10 :: rat) * 40\<rfloor> = 36" by simp
  note preview = simulated_failure [of "1 / 20" "''smart''" "''high''" "''performance''"
      "''max''" 100 True "9 / 10" demo_preview "Some FreeRam" "[]"]
  note desktop = simulated_failure [of "1 / 2" "''smart''" "''high''" "''performance''"
      "''max''" 100 True "9 / 10" demo_desktop "Some ApplyPowerPlan" "[JStr ''performance'']"]
  from preview a have p1: "step demo_preview (Some FreeRam) [] = True" by blast
  from preview have p2: "turboOperations_freeRam (1 / 20) = False" by simp
  from desktop have p3: "turboOperations_freeRam (1 / 2) = True" by simp
  from preview c have p4: "turboOperations_setFanSpeed 100 True (9 / 10) (1 / 20) = True"
    by simp
  from desktop b have p5:
    "step demo_desktop (Some ApplyPowerPlan) [JStr ''performance''] = False"
    by blast
  show ?thesis using a p1 p2 p3 p4 p5 by blast
qed

end
